theory Spec2Isabelle
  imports Complex_Main "HOL-Library.Sublist" "HOL-Library.Multiset"
begin

section \<open>The vector memory store of index.js\<close>

text \<open>
  A shallow embedding of class \<open>MemoryDB\<close> (index.js, lines 33 to 259).

  Numbers of the program are IEEE doubles. The model keeps the one special value the code
  can meet on well-typed vectors, \<open>NaN\<close>, and takes every other number as an exact real:
  rounding, overflow to infinity and the sign of zero are outside the model. The theorems
  on \<open>search\<close> state how the returned list is built from the scores (the bound, the
  filter, the order, the ties) and hold whatever value a score has; they do not say which
  value it has, and on doubles a rounded score can pass or miss \<open>minScore\<close>, or tie,
  where the exact one does not. The lemmas on the value of the similarity are marked as
  facts of exact arithmetic. Timestamps (\<open>Date.now()\<close>) and the capacity are integers. What the program
  draws from its environment (\<open>randomUUID()\<close>, \<open>Date.now()\<close>) is an argument of the
  operation that draws it; console output is not modelled.
\<close>

subsection \<open>Numbers\<close>

datatype jsnum = NaN | Num real

fun jadd :: "jsnum \<Rightarrow> jsnum \<Rightarrow> jsnum" where
  "jadd (Num x) (Num y) = Num (x + y)"
| "jadd _ _ = NaN"

fun jsub :: "jsnum \<Rightarrow> jsnum \<Rightarrow> jsnum" where
  "jsub (Num x) (Num y) = Num (x - y)"
| "jsub _ _ = NaN"

fun jmul :: "jsnum \<Rightarrow> jsnum \<Rightarrow> jsnum" where
  "jmul (Num x) (Num y) = Num (x * y)"
| "jmul _ _ = NaN"

text \<open>\<open>x / y\<close>; the quotient by zero (an infinity, or NaN for \<open>0 / 0\<close>) is not a real, the
  model gives NaN. \<open>cosineSimilarity\<close> divides only after \<open>denom === 0\<close> was false.\<close>

fun jdiv :: "jsnum \<Rightarrow> jsnum \<Rightarrow> jsnum" where
  "jdiv (Num x) (Num y) = (if y = 0 then NaN else Num (x / y))"
| "jdiv _ _ = NaN"

text \<open>\<open>Math.sqrt\<close>: NaN on NaN and on a negative number.\<close>

fun jsqrt :: "jsnum \<Rightarrow> jsnum" where
  "jsqrt (Num x) = (if x < 0 then NaN else Num (sqrt x))"
| "jsqrt NaN = NaN"

text \<open>\<open>x >= y\<close>: false as soon as one side is NaN.\<close>

fun jge :: "jsnum \<Rightarrow> jsnum \<Rightarrow> bool" where
  "jge (Num x) (Num y) = (y \<le> x)"
| "jge _ _ = False"

text \<open>\<open>x === 0\<close>.\<close>

fun is_zero :: "jsnum \<Rightarrow> bool" where
  "is_zero (Num x) = (x = 0)"
| "is_zero NaN = False"

text \<open>\<open>a[i]\<close> read as a number: past the end the read gives \<open>undefined\<close>, which arithmetic
  converts to NaN.\<close>

definition elem :: "real list \<Rightarrow> nat \<Rightarrow> jsnum" where
  "elem a i = (if i < length a then Num (a ! i) else NaN)"

subsection \<open>Records\<close>

text \<open>The argument of \<open>store\<close>, and the stored record \<open>{ id, ...entry, createdAt }\<close>.
  The property \<open>id\<close> is the field \<open>id_field\<close>, since \<open>id\<close> is the identity function of HOL.\<close>

record entry =
  "text" :: string
  vector :: "real list"
  category :: string
  importance :: real

record memory_record = entry +
  id_field :: string
  createdAt :: int

record search_result =
  entry :: memory_record
  score :: jsnum

subsection \<open>\<open>Array.prototype.sort\<close>\<close>

text \<open>
  \<open>xs.sort(cmp)\<close> is stable, and a comparator result of NaN counts as \<open>+0\<close>. For a
  comparator that is a consistent order, as both comparators of this program are, stability
  fixes the result; the model computes it by insertion from the right: an element goes
  before the first element it does not compare greater than.
\<close>

fun cmp_le0 :: "jsnum \<Rightarrow> bool" where
  "cmp_le0 (Num v) = (v \<le> 0)"
| "cmp_le0 NaN = True"

fun js_insert :: "('a \<Rightarrow> 'a \<Rightarrow> jsnum) \<Rightarrow> 'a \<Rightarrow> 'a list \<Rightarrow> 'a list" where
  "js_insert cmp x [] = [x]"
| "js_insert cmp x (y # ys) =
     (if cmp_le0 (cmp x y) then x # y # ys else y # js_insert cmp x ys)"

definition js_sort :: "('a \<Rightarrow> 'a \<Rightarrow> jsnum) \<Rightarrow> 'a list \<Rightarrow> 'a list" where
  "js_sort cmp xs = foldr (js_insert cmp) xs []"

text \<open>\<open>xs.slice(0, n)\<close>: a negative end counts from the end of the array.\<close>

definition slice0 :: "'a list \<Rightarrow> int \<Rightarrow> 'a list" where
  "slice0 xs n = (if n < 0 then take (nat (int (length xs) + n)) xs else take (nat n) xs)"

subsection \<open>\<open>cosineSimilarity\<close> (lines 172 to 181)\<close>

text \<open>The loop \<open>for (let i = 0; i < a.length; i++)\<close> on the three accumulators.\<close>

function cosine_loop :: "real list \<Rightarrow> real list \<Rightarrow> nat \<Rightarrow> jsnum \<times> jsnum \<times> jsnum
    \<Rightarrow> jsnum \<times> jsnum \<times> jsnum" where
  "cosine_loop a b i (dot, normA, normB) =
     (if i < length a
      then cosine_loop a b (Suc i)
             (jadd dot (jmul (elem a i) (elem b i)),
              jadd normA (jmul (elem a i) (elem a i)),
              jadd normB (jmul (elem b i) (elem b i)))
      else (dot, normA, normB))"
  by pat_completeness auto
termination
  by (relation "measure (\<lambda>(a, b, i, acc). length a - i)") auto

declare cosine_loop.simps [simp del]

definition cosineSimilarity :: "real list \<Rightarrow> real list \<Rightarrow> jsnum" where
  "cosineSimilarity a b =
     (case cosine_loop a b 0 (Num 0, Num 0, Num 0) of (dot, normA, normB) \<Rightarrow>
        let denom = jmul (jsqrt normA) (jsqrt normB)
        in if is_zero denom then Num 0 else jdiv dot denom)"

subsection \<open>Errors, the file system and the Qdrant client\<close>

text \<open>A thrown value: the error's class name and the two properties the code reads,
  \<open>err.status\<close> and \<open>err.message\<close>. An \<open>async\<close> method that throws is a rejected promise;
  both are the left summand of the operation's outcome.\<close>

datatype js_error = JsError (err_name: string) (status: "int option") (message: string)

text \<open>\<open>s.includes(t)\<close>: \<open>t\<close> starts at some position of \<open>s\<close>.\<close>

definition str_includes :: "string \<Rightarrow> string \<Rightarrow> bool" where
  "str_includes s t = list_ex (prefix t) (suffixes s)"

text \<open>\<open>s.lastIndexOf(c)\<close>, -1 when \<open>c\<close> does not occur, and \<open>s.substring(0, n)\<close>, which
  takes a negative \<open>n\<close> as 0.\<close>

fun lastIndexOf :: "string \<Rightarrow> char \<Rightarrow> int" where
  "lastIndexOf [] c = -1"
| "lastIndexOf (x # xs) c =
     (let i = lastIndexOf xs c in if i \<noteq> -1 then i + 1 else if x = c then 0 else -1)"

definition substring0 :: "string \<Rightarrow> int \<Rightarrow> string" where
  "substring0 s n = take (nat n) s"

text \<open>
  The snapshot document of \<open>_saveToDisk\<close>. The text of the file is abstracted to what
  \<open>JSON.parse\<close> makes of it: a document, whose \<open>memories\<close> property may be missing, or
  a syntax error. \<open>savedAt\<close> is the clock value that \<open>toISOString\<close> prints.
\<close>

record snapshot =
  version :: string
  snapshot_collectionName :: string
  savedAt :: int
  snapshot_count :: nat
  memories :: "memory_record list option"

datatype file_data = Unparsable | Document snapshot

definition JSON_stringify :: "snapshot \<Rightarrow> file_data" where
  "JSON_stringify data = Document data"

fun JSON_parse :: "file_data \<Rightarrow> js_error + snapshot" where
  "JSON_parse Unparsable = Inl (JsError ''SyntaxError'' None ''Unexpected token'')"
| "JSON_parse (Document d) = Inr d"

text \<open>
  The file system is the environment of the store: its files, its directories, and which
  calls fail on it (permissions, a full disk), given by three predicates on paths.
\<close>

record filesystem =
  files :: "string \<rightharpoonup> file_data"
  directories :: "string list"
  mkdir_fails :: "string \<Rightarrow> bool"
  write_fails :: "string \<Rightarrow> bool"
  read_fails :: "string \<Rightarrow> bool"

definition existsSync :: "filesystem \<Rightarrow> string \<Rightarrow> bool" where
  "existsSync fs p = (files fs p \<noteq> None \<or> p \<in> set (directories fs))"

definition mkdirSync :: "filesystem \<Rightarrow> string \<Rightarrow> js_error + filesystem" where
  "mkdirSync fs d =
     (if mkdir_fails fs d then Inl (JsError ''Error'' None ''mkdir failed'')
      else Inr (fs\<lparr>directories := d # directories fs\<rparr>))"

definition writeFileSync :: "filesystem \<Rightarrow> string \<Rightarrow> file_data \<Rightarrow> js_error + filesystem" where
  "writeFileSync fs p data =
     (if write_fails fs p then Inl (JsError ''Error'' None ''write failed'')
      else Inr (fs\<lparr>files := (files fs)(p \<mapsto> data)\<rparr>))"

definition readFileSync :: "filesystem \<Rightarrow> string \<Rightarrow> js_error + file_data" where
  "readFileSync fs p =
     (case files fs p of
        None \<Rightarrow> Inl (JsError ''Error'' None ''no such file'')
      | Some data \<Rightarrow>
          if read_fails fs p then Inl (JsError ''Error'' None ''read failed'') else Inr data)"

text \<open>
  The Qdrant client is a library outside the repository: it is a parameter, a record of
  its methods over a backend state \<open>'b\<close> of any type. Each method returns or throws.
\<close>

record collection_info =
  points_count :: "nat option"

record point =
  point_id :: string
  point_vector :: "real list"
  payload_text :: string
  payload_category :: string
  payload_importance :: real
  payload_createdAt :: int

record hit =
  hit_id :: string
  hit_score :: jsnum
  hit_text :: string
  hit_category :: string
  hit_importance :: real
  hit_createdAt :: int

record 'b qdrant_client =
  client_url :: "string option"
  getCollection :: "'b \<Rightarrow> string \<Rightarrow> js_error + collection_info"
  createCollection :: "'b \<Rightarrow> string \<Rightarrow> nat \<Rightarrow> string \<Rightarrow> js_error + 'b"
  getCollections :: "'b \<Rightarrow> js_error + unit"
  upsert :: "'b \<Rightarrow> string \<Rightarrow> point \<Rightarrow> js_error + 'b"
  client_search :: "'b \<Rightarrow> string \<Rightarrow> real list \<Rightarrow> int \<Rightarrow> real \<Rightarrow> js_error + hit list"
  client_delete :: "'b \<Rightarrow> string \<Rightarrow> string \<Rightarrow> js_error + 'b"

text \<open>What the identifier \<open>api\<close> of line 224 resolves to. No declaration of the module
  binds it there (\<open>api\<close> is the parameter of \<open>register\<close>, line 384), so it is looked up
  in the global scope: \<open>None\<close> when the host defines no global of that name.\<close>

datatype logger = Logger

subsection \<open>The store\<close>

definition DEFAULT_MAX_MEMORY_SIZE :: int where
  "DEFAULT_MAX_MEMORY_SIZE = 1000"

definition VECTOR_DIM :: nat where
  "VECTOR_DIM = 384"

record memory_db =
  useMemoryFallback :: bool
  memoryStore :: "memory_record list"
  collectionName :: string
  maxSize :: int
  initialized :: bool
  persistPath :: "string option"

record 'b state =
  db :: memory_db
  disk :: filesystem
  backend :: 'b

text \<open>\<open>_loadFromDisk\<close> (lines 58 to 72); \<open>!this.persistPath\<close> holds of \<open>null\<close> and of the
  empty string.\<close>

definition loadFromDisk :: "memory_db \<Rightarrow> filesystem \<Rightarrow> memory_db" where
  "loadFromDisk this fs =
     (case persistPath this of
        None \<Rightarrow> this
      | Some p \<Rightarrow>
          if p = [] then this
          else if existsSync fs p then
            (case readFileSync fs p of
               Inl err \<Rightarrow> this\<lparr>memoryStore := []\<rparr>
             | Inr data \<Rightarrow>
                 (case JSON_parse data of
                    Inl err \<Rightarrow> this\<lparr>memoryStore := []\<rparr>
                  | Inr parsed \<Rightarrow>
                      this\<lparr>memoryStore :=
                        (case memories parsed of None \<Rightarrow> [] | Some ms \<Rightarrow> ms)\<rparr>))
          else this)"

text \<open>\<open>_saveToDisk\<close> (lines 74 to 95); \<open>saved\<close> is the clock read of \<open>new Date()\<close>. A
  failure of \<open>mkdirSync\<close> or of \<open>writeFileSync\<close> is caught and logged.\<close>

definition saveToDisk :: "memory_db \<Rightarrow> int \<Rightarrow> filesystem \<Rightarrow> filesystem" where
  "saveToDisk this saved fs =
     (case persistPath this of
        None \<Rightarrow> fs
      | Some p \<Rightarrow>
          if p = [] then fs
          else
            let dir = substring0 p (lastIndexOf p CHR ''/'') in
            (case (if \<not> existsSync fs dir then mkdirSync fs dir else Inr fs) of
               Inl err \<Rightarrow> fs
             | Inr fs1 \<Rightarrow>
                 let data = \<lparr>version = ''1.0'',
                             snapshot_collectionName = collectionName this,
                             savedAt = saved,
                             snapshot_count = length (memoryStore this),
                             memories = Some (memoryStore this)\<rparr>
                 in (case writeFileSync fs1 p (JSON_stringify data) of
                       Inl err \<Rightarrow> fs1
                     | Inr fs2 \<Rightarrow> fs2)))"

text \<open>The constructor (lines 34 to 56): \<open>!url\<close> holds of a missing url and of the empty
  string. The Remote variant sets neither \<open>memoryStore\<close>, \<open>maxSize\<close> nor \<open>persistPath\<close>; the
  model fills them with the empty list, the argument and \<open>None\<close>, and no Remote branch
  reads them.\<close>

definition constructor ::
    "string option \<Rightarrow> string \<Rightarrow> int \<Rightarrow> string option \<Rightarrow> filesystem \<Rightarrow> memory_db" where
  "constructor url cn max_size persist_path fs =
     (if url = None \<or> url = Some [] \<or> url = Some '':memory:''
      then
        let this = \<lparr>useMemoryFallback = True, memoryStore = [], collectionName = cn,
                    maxSize = max_size, initialized = True, persistPath = persist_path\<rparr>
        in if persist_path \<noteq> None \<and> persist_path \<noteq> Some [] then loadFromDisk this fs
           else this
      else \<lparr>useMemoryFallback = False, memoryStore = [], collectionName = cn,
            maxSize = max_size, initialized = False, persistPath = None\<rparr>)"

text \<open>\<open>ensureCollection\<close> (lines 97 to 117). Every operation returns its outcome, a value
  or the error thrown, with the state it leaves.\<close>

definition ensureCollection ::
    "'b qdrant_client \<Rightarrow> 'b state \<Rightarrow> (js_error + unit) \<times> 'b state" where
  "ensureCollection c st =
     (if useMemoryFallback (db st) \<or> initialized (db st) then (Inr (), st)
      else
        (case getCollection c (backend st) (collectionName (db st)) of
           Inr info \<Rightarrow> (Inr (), st\<lparr>db := (db st)\<lparr>initialized := True\<rparr>\<rparr>)
         | Inl err \<Rightarrow>
             if status err = Some 404 \<or> str_includes (message err) ''not found''
             then
               (case createCollection c (backend st) (collectionName (db st))
                       VECTOR_DIM ''Cosine'' of
                  Inl err2 \<Rightarrow> (Inl err2, st)
                | Inr b \<Rightarrow> (Inr (), st\<lparr>backend := b, db := (db st)\<lparr>initialized := True\<rparr>\<rparr>))
             else (Inl err, st)))"

text \<open>\<open>healthCheck\<close> (lines 119 to 130).\<close>

record health =
  healthy :: bool
  mode :: string
  health_url :: "string option"
  error :: "string option"

definition healthCheck :: "'b qdrant_client \<Rightarrow> 'b state \<Rightarrow> (js_error + health) \<times> 'b state" where
  "healthCheck c st =
     (if useMemoryFallback (db st)
      then (Inr \<lparr>healthy = True, mode = ''memory'', health_url = None, error = None\<rparr>, st)
      else
        (case getCollections c (backend st) of
           Inr u \<Rightarrow>
             (Inr \<lparr>healthy = True, mode = ''qdrant'', health_url = client_url c,
                   error = None\<rparr>, st)
         | Inl err \<Rightarrow>
             (Inr \<lparr>healthy = False, mode = ''qdrant'', health_url = None,
                   error = Some (message err)\<rparr>, st)))"

text \<open>\<open>store\<close> (lines 132 to 167). \<open>uuid\<close> is the value of \<open>randomUUID()\<close>, \<open>now\<close> and
  \<open>now2\<close> are the first and the second clock read of the call: \<open>Date.now()\<close> and then the
  \<open>new Date()\<close> of \<open>_saveToDisk\<close> in the Local branch, the two \<open>Date.now()\<close> in the Remote
  one. \<open>shift()\<close> on an empty array removes nothing, as \<open>tl\<close> does.\<close>

definition by_createdAt :: "memory_record \<Rightarrow> memory_record \<Rightarrow> jsnum" where
  "by_createdAt a b = jsub (Num (real_of_int (createdAt a))) (Num (real_of_int (createdAt b)))"

definition make_record :: "string \<Rightarrow> entry \<Rightarrow> int \<Rightarrow> memory_record" where
  "make_record uuid e now =
     \<lparr>text = text e, vector = vector e, category = category e, importance = importance e,
      id_field = uuid, createdAt = now\<rparr>"

definition store ::
    "'b qdrant_client \<Rightarrow> 'b state \<Rightarrow> string \<Rightarrow> int \<Rightarrow> int \<Rightarrow> entry
      \<Rightarrow> (js_error + memory_record) \<times> 'b state" where
  "store c st uuid now now2 e =
     (if useMemoryFallback (db st)
      then
        let this = db st;
            evicted =
              (if maxSize this < 999999 \<and> maxSize this \<le> int (length (memoryStore this))
               then tl (js_sort by_createdAt (memoryStore this))
               else memoryStore this);
            record = make_record uuid e now;
            this2 = this\<lparr>memoryStore := evicted @ [record]\<rparr>
        in (Inr record, st\<lparr>db := this2, disk := saveToDisk this2 now2 (disk st)\<rparr>)
      else
        (case ensureCollection c st of
           (Inl err, st1) \<Rightarrow> (Inl err, st1)
         | (Inr u, st1) \<Rightarrow>
             (case upsert c (backend st1) (collectionName (db st1))
                     \<lparr>point_id = uuid, point_vector = vector e, payload_text = text e,
                      payload_category = category e, payload_importance = importance e,
                      payload_createdAt = now\<rparr> of
                Inl err \<Rightarrow> (Inl err, st1)
              | Inr b \<Rightarrow> (Inr (make_record uuid e now2), st1\<lparr>backend := b\<rparr>))))"

text \<open>\<open>search\<close> (lines 169 to 227). In the Local branch nothing can throw. In the Remote
  branch \<open>ensureCollection\<close> is awaited before the \<open>try\<close>, and the handler of the \<open>try\<close>
  evaluates \<open>api.logger.error\<close> before it returns the empty list.\<close>

definition by_score_desc :: "search_result \<Rightarrow> search_result \<Rightarrow> jsnum" where
  "by_score_desc a b = jsub (score b) (score a)"

definition scored :: "real list \<Rightarrow> memory_record \<Rightarrow> search_result" where
  "scored v record =
     \<lparr>entry = \<lparr>text = text record, vector = [], category = category record,
               importance = importance record, id_field = id_field record,
               createdAt = createdAt record\<rparr>,
      score = cosineSimilarity v (vector record)\<rparr>"

definition of_hit :: "hit \<Rightarrow> search_result" where
  "of_hit r =
     \<lparr>entry = \<lparr>text = hit_text r, vector = [], category = hit_category r,
               importance = hit_importance r, id_field = hit_id r,
               createdAt = hit_createdAt r\<rparr>,
      score = hit_score r\<rparr>"

definition search ::
    "'b qdrant_client \<Rightarrow> logger option \<Rightarrow> 'b state \<Rightarrow> real list \<Rightarrow> int \<Rightarrow> real
      \<Rightarrow> (js_error + search_result list) \<times> 'b state" where
  "search c api st v limit minScore =
     (if useMemoryFallback (db st)
      then
        (Inr (slice0
                (js_sort by_score_desc
                   (filter (\<lambda>r. jge (score r) (Num minScore))
                      (map (scored v) (memoryStore (db st)))))
                limit),
         st)
      else
        (case ensureCollection c st of
           (Inl err, st1) \<Rightarrow> (Inl err, st1)
         | (Inr u, st1) \<Rightarrow>
             (case client_search c (backend st1) (collectionName (db st1)) v limit minScore of
                Inr results \<Rightarrow> (Inr (map of_hit results), st1)
              | Inl err \<Rightarrow>
                  (case api of
                     None \<Rightarrow> (Inl (JsError ''ReferenceError'' None ''api is not defined''), st1)
                   | Some lg \<Rightarrow> (Inr [], st1)))))"

text \<open>\<open>delete\<close> (lines 229 to 248); \<open>now\<close> is the clock read of \<open>_saveToDisk\<close>.\<close>

fun findIndex :: "('a \<Rightarrow> bool) \<Rightarrow> 'a list \<Rightarrow> int" where
  "findIndex P [] = -1"
| "findIndex P (x # xs) =
     (if P x then 0 else let i = findIndex P xs in if i = -1 then -1 else i + 1)"

text \<open>\<open>xs.splice(i, 1)\<close> for an index \<open>i\<close> that \<open>findIndex\<close> returned.\<close>

definition splice1 :: "'a list \<Rightarrow> int \<Rightarrow> 'a list" where
  "splice1 xs i = take (nat i) xs @ drop (nat i + 1) xs"

definition delete ::
    "'b qdrant_client \<Rightarrow> 'b state \<Rightarrow> string \<Rightarrow> int \<Rightarrow> (js_error + bool) \<times> 'b state" where
  "delete c st i now =
     (if useMemoryFallback (db st)
      then
        let index = findIndex (\<lambda>r. id_field r = i) (memoryStore (db st)) in
        if index \<noteq> -1 then
          let this2 = (db st)\<lparr>memoryStore := splice1 (memoryStore (db st)) index\<rparr>
          in (Inr True, st\<lparr>db := this2, disk := saveToDisk this2 now (disk st)\<rparr>)
        else (Inr False, st)
      else
        (case ensureCollection c st of
           (Inl err, st1) \<Rightarrow> (Inl err, st1)
         | (Inr u, st1) \<Rightarrow>
             (case client_delete c (backend st1) (collectionName (db st1)) i of
                Inl err \<Rightarrow> (Inl err, st1)
              | Inr b \<Rightarrow> (Inr True, st1\<lparr>backend := b\<rparr>))))"

text \<open>\<open>count\<close> (lines 250 to 258), here \<open>count_records\<close> since \<open>count\<close> is a constant of
  the multiset library; \<open>info.points_count || 0\<close>.\<close>

definition count_records ::
    "'b qdrant_client \<Rightarrow> 'b state \<Rightarrow> (js_error + nat) \<times> 'b state" where
  "count_records c st =
     (if useMemoryFallback (db st) then (Inr (length (memoryStore (db st))), st)
      else
        (case ensureCollection c st of
           (Inl err, st1) \<Rightarrow> (Inl err, st1)
         | (Inr u, st1) \<Rightarrow>
             (case getCollection c (backend st1) (collectionName (db st1)) of
                Inl err \<Rightarrow> (Inl err, st1)
              | Inr info \<Rightarrow>
                  (Inr (case points_count info of None \<Rightarrow> 0 | Some n \<Rightarrow> n), st1))))"

subsection \<open>Reachable states\<close>

text \<open>The states a store goes through from \<open>st0\<close>, one call of its interface after the
  other, whatever the environment answers.\<close>

inductive reachable :: "'b qdrant_client \<Rightarrow> logger option \<Rightarrow> 'b state \<Rightarrow> 'b state \<Rightarrow> bool"
  for c :: "'b qdrant_client" and api :: "logger option" and st0 :: "'b state" where
  start: "reachable c api st0 st0"
| after_store: "reachable c api st0 st \<Longrightarrow> reachable c api st0 (snd (store c st uuid now now2 e))"
| after_search:
    "reachable c api st0 st \<Longrightarrow> reachable c api st0 (snd (search c api st v limit minScore))"
| after_delete: "reachable c api st0 st \<Longrightarrow> reachable c api st0 (snd (delete c st i now))"
| after_count: "reachable c api st0 st \<Longrightarrow> reachable c api st0 (snd (count_records c st))"
| after_healthCheck: "reachable c api st0 st \<Longrightarrow> reachable c api st0 (snd (healthCheck c st))"

subsection \<open>Concrete environments\<close>

text \<open>A disk with no file on which no call fails, and four behaviours of the backend:
  a service that keeps the ids of its points and answers every request, the same service
  with a search request that fails, the same service with a delete request that fails,
  and a service that cannot be reached.\<close>

definition empty_disk :: filesystem where
  "empty_disk = \<lparr>files = Map.empty, directories = [], mkdir_fails = (\<lambda>p. False),
                  write_fails = (\<lambda>p. False), read_fails = (\<lambda>p. False)\<rparr>"

definition answering_service :: "string list qdrant_client" where
  "answering_service =
     \<lparr>client_url = Some ''http://localhost:6333'',
      getCollection = (\<lambda>b n. Inr \<lparr>points_count = Some (length b)\<rparr>),
      createCollection = (\<lambda>b n d m. Inr b),
      getCollections = (\<lambda>b. Inr ()),
      upsert = (\<lambda>b n p. Inr (point_id p # b)),
      client_search = (\<lambda>b n v l m. Inr []),
      client_delete = (\<lambda>b n i. Inr (removeAll i b))\<rparr>"

definition failing_search_service :: "string list qdrant_client" where
  "failing_search_service =
     answering_service
       \<lparr>client_search := (\<lambda>b n v l m. Inl (JsError ''Error'' None ''timeout''))\<rparr>"

definition failing_delete_service :: "string list qdrant_client" where
  "failing_delete_service =
     answering_service
       \<lparr>client_delete := (\<lambda>b n i. Inl (JsError ''Error'' None ''timeout''))\<rparr>"

definition unreachable_service :: "string list qdrant_client" where
  "unreachable_service =
     \<lparr>client_url = Some ''http://localhost:6333'',
      getCollection = (\<lambda>b n. Inl (JsError ''Error'' None ''fetch failed'')),
      createCollection = (\<lambda>b n d m. Inl (JsError ''Error'' None ''fetch failed'')),
      getCollections = (\<lambda>b. Inl (JsError ''Error'' None ''fetch failed'')),
      upsert = (\<lambda>b n p. Inl (JsError ''Error'' None ''fetch failed'')),
      client_search = (\<lambda>b n v l m. Inl (JsError ''Error'' None ''fetch failed'')),
      client_delete = (\<lambda>b n i. Inl (JsError ''Error'' None ''fetch failed''))\<rparr>"

text \<open>A store as the constructor leaves it, Local without persistence and Remote, with
  the state of its environment.\<close>

definition local_store :: "int \<Rightarrow> string list state" where
  "local_store max_size =
     \<lparr>db = constructor None ''openclaw_memories'' max_size None empty_disk,
      disk = empty_disk, backend = []\<rparr>"

definition remote_store :: "string list state" where
  "remote_store =
     \<lparr>db = constructor (Some ''http://localhost:6333'') ''openclaw_memories''
             DEFAULT_MAX_MEMORY_SIZE None empty_disk,
      disk = empty_disk, backend = []\<rparr>"

definition an_entry :: "string \<Rightarrow> real list \<Rightarrow> entry" where
  "an_entry t v = \<lparr>text = t, vector = v, category = ''fact'', importance = 0.5\<rparr>"

text \<open>Scenario A of the specification: capacity 2, then A, B and C stored at the clock
  values 1, 2 and 3; \<open>scenario_A_full\<close> is the store before C arrives.\<close>

definition scenario_A_full :: "string list state" where
  "scenario_A_full =
     snd (store answering_service
       (snd (store answering_service (local_store 2) ''id-A'' 1 1 (an_entry ''A'' [1, 0])))
       ''id-B'' 2 2 (an_entry ''B'' [0, 1]))"

definition scenario_A :: "string list state" where
  "scenario_A = snd (store answering_service scenario_A_full ''id-C'' 3 3 (an_entry ''C'' [1, 1]))"

text \<open>A store of capacity 3 built on a snapshot whose three records, all with the vector
  \<open>[1]\<close>, are not in the order of their timestamps.\<close>

definition snapshot_path :: string where
  "snapshot_path = ''/home/user/.openclaw-memory/openclaw_memories.json''"

definition unordered_snapshot :: snapshot where
  "unordered_snapshot =
     \<lparr>version = ''1.0'', snapshot_collectionName = ''openclaw_memories'', savedAt = 9,
      snapshot_count = 3,
      memories = Some [make_record ''X'' (an_entry ''x'' [1]) 5,
                       make_record ''Y'' (an_entry ''y'' [1]) 3,
                       make_record ''Z'' (an_entry ''z'' [1]) 4]\<rparr>"

definition unordered_store :: "string list state" where
  "unordered_store =
     (let fs = empty_disk\<lparr>files := [snapshot_path \<mapsto> Document unordered_snapshot]\<rparr>
      in \<lparr>db = constructor None ''openclaw_memories'' 3 (Some snapshot_path) fs,
          disk = fs, backend = []\<rparr>)"

text \<open>The ids of a search result, in the order returned.\<close>

definition found_ids :: "(js_error + search_result list) \<Rightarrow> string list" where
  "found_ids res = (case res of Inl err \<Rightarrow> [] | Inr rs \<Rightarrow> map (\<lambda>r. id_field (entry r)) rs)"

text \<open>The number a score holds, for the scores that are not NaN.\<close>

definition score_value :: "search_result \<Rightarrow> real" where
  "score_value r = (case score r of NaN \<Rightarrow> 0 | Num s \<Rightarrow> s)"

section \<open>Properties\<close>

subsection \<open>Sorting\<close>

lemma cmp_le0_by_createdAt: "cmp_le0 (by_createdAt a b) = (createdAt a \<le> createdAt b)"
  by (simp add: by_createdAt_def)

lemma js_insert_by_createdAt: "js_insert by_createdAt x ys = insort_key createdAt x ys"
  by (induction ys) (simp_all add: cmp_le0_by_createdAt)

lemma js_sort_by_createdAt: "js_sort by_createdAt xs = sort_key createdAt xs"
  by (induction xs) (simp_all add: js_sort_def js_insert_by_createdAt)

lemma length_js_insert: "length (js_insert cmp x ys) = Suc (length ys)"
  by (induction ys) simp_all

lemma length_js_sort: "length (js_sort cmp xs) = length xs"
  by (induction xs) (simp_all add: js_sort_def length_js_insert)

lemma hd_insort_key:
  "hd (insort_key f x ys) = (if ys = [] \<or> f x \<le> f (hd ys) then x else hd ys)"
  by (cases ys) simp_all

text \<open>The head of a stable sort is the first of the elements with the least key.\<close>

lemma sort_key_first_min:
  "xs \<noteq> [] \<Longrightarrow> \<exists>k<length xs. hd (sort_key f xs) = xs ! k
      \<and> (\<forall>x\<in>set xs. f (xs ! k) \<le> f x) \<and> (\<forall>j<k. f (xs ! k) < f (xs ! j))"
proof (induction xs)
  case Nil
  then show ?case by simp
next
  case (Cons x xs)
  show ?case
  proof (cases "xs = []")
    case True
    then show ?thesis by simp
  next
    case False
    with Cons.IH obtain k where k: "k < length xs" "hd (sort_key f xs) = xs ! k"
      "\<forall>y\<in>set xs. f (xs ! k) \<le> f y" "\<forall>j<k. f (xs ! k) < f (xs ! j)"
      by blast
    have ne: "sort_key f xs \<noteq> []" using False by (metis length_0_conv length_sort)
    show ?thesis
    proof (cases "f x \<le> f (xs ! k)")
      case True
      have "hd (sort_key f (x # xs)) = x"
        using True k(2) ne by (simp add: hd_insort_key)
      moreover have "\<forall>y\<in>set (x # xs). f x \<le> f y"
        using True k(3) by auto
      ultimately show ?thesis
        by (intro exI[of _ 0]) simp
    next
      case False
      have "hd (sort_key f (x # xs)) = xs ! k"
        using False k(2) ne by (simp add: hd_insort_key)
      moreover have "\<forall>y\<in>set (x # xs). f (xs ! k) \<le> f y"
        using False k(3) by auto
      moreover have "\<forall>j<Suc k. f (xs ! k) < f ((x # xs) ! j)"
        using False k(4) by (auto simp: less_Suc_eq_0_disj)
      ultimately show ?thesis
        using k(1) by (intro exI[of _ "Suc k"]) simp
    qed
  qed
qed

subsection \<open>What a call leaves of the Local store\<close>

lemma memoryStore_store:
  "useMemoryFallback (db st) \<Longrightarrow>
   memoryStore (db (snd (store c st uuid now now2 e))) =
     (if maxSize (db st) < 999999 \<and> maxSize (db st) \<le> int (length (memoryStore (db st)))
      then tl (js_sort by_createdAt (memoryStore (db st)))
      else memoryStore (db st)) @ [make_record uuid e now]"
  by (simp add: store_def Let_def)

lemma fst_store_local:
  "useMemoryFallback (db st) \<Longrightarrow> fst (store c st uuid now now2 e) = Inr (make_record uuid e now)"
  by (simp add: store_def Let_def)

lemma maxSize_store: "maxSize (db (snd (store c st uuid now now2 e))) = maxSize (db st)"
  by (auto simp: store_def Let_def ensureCollection_def split: sum.splits prod.splits)

lemma fallback_store:
  "useMemoryFallback (db (snd (store c st uuid now now2 e))) = useMemoryFallback (db st)"
  by (auto simp: store_def Let_def ensureCollection_def split: sum.splits prod.splits)

lemma store_keeps_bound:
  assumes "useMemoryFallback (db st)" "1 \<le> maxSize (db st)" "maxSize (db st) < 999999"
    and "int (length (memoryStore (db st))) \<le> maxSize (db st)"
  shows "int (length (memoryStore (db (snd (store c st uuid now now2 e))))) \<le> maxSize (db st)"
  using assms by (simp add: memoryStore_store length_js_sort)

lemma local_search_state:
  "useMemoryFallback (db st) \<Longrightarrow> snd (search c api st v limit minScore) = st"
  by (simp add: search_def)

lemma local_count_state: "useMemoryFallback (db st) \<Longrightarrow> snd (count_records c st) = st"
  by (simp add: count_records_def)

lemma healthCheck_state: "snd (healthCheck c st) = st"
  by (simp add: healthCheck_def split: sum.splits)

lemma findIndex_range:
  "findIndex P xs = -1 \<or> (0 \<le> findIndex P xs \<and> nat (findIndex P xs) < length xs)"
  by (induction xs) (auto simp: Let_def)

lemma length_splice1:
  "0 \<le> i \<Longrightarrow> nat i < length xs \<Longrightarrow> length (splice1 xs i) = length xs - 1"
  by (simp add: splice1_def)

lemma local_delete_db:
  "useMemoryFallback (db st) \<Longrightarrow>
   useMemoryFallback (db (snd (delete c st i now))) \<and>
   maxSize (db (snd (delete c st i now))) = maxSize (db st) \<and>
   length (memoryStore (db (snd (delete c st i now)))) \<le> length (memoryStore (db st))"
  using findIndex_range [of "\<lambda>r. id_field r = i" "memoryStore (db st)"]
  by (auto simp: delete_def Let_def length_splice1)

lemma local_store_simps:
  "useMemoryFallback (db (local_store n))" "memoryStore (db (local_store n)) = []"
  "maxSize (db (local_store n)) = n" "persistPath (db (local_store n)) = None"
  by (simp_all add: local_store_def constructor_def)

lemmas store_local_simps = memoryStore_store maxSize_store fallback_store local_store_simps

lemma scenario_A_full_simps:
  "useMemoryFallback (db scenario_A_full)" "maxSize (db scenario_A_full) = 2"
  "memoryStore (db scenario_A_full) =
     [make_record ''id-A'' (an_entry ''A'' [1, 0]) 1, make_record ''id-B'' (an_entry ''B'' [0, 1]) 2]"
  by (simp_all add: scenario_A_full_def store_local_simps)

lemma scenario_A_store:
  "memoryStore (db scenario_A) =
     [make_record ''id-B'' (an_entry ''B'' [0, 1]) 2, make_record ''id-C'' (an_entry ''C'' [1, 1]) 3]"
  by (simp add: scenario_A_def store_local_simps scenario_A_full_simps js_sort_by_createdAt
      make_record_def)

lemma unordered_store_simps:
  "useMemoryFallback (db unordered_store)" "maxSize (db unordered_store) = 3"
  "memoryStore (db unordered_store) =
     [make_record ''X'' (an_entry ''x'' [1]) 5, make_record ''Y'' (an_entry ''y'' [1]) 3,
      make_record ''Z'' (an_entry ''z'' [1]) 4]"
  by (simp_all add: unordered_store_def constructor_def loadFromDisk_def existsSync_def
      readFileSync_def empty_disk_def snapshot_path_def unordered_snapshot_def Let_def)

lemma cosine_1_1: "cosineSimilarity [1] [1] = Num 1"
  by (simp add: cosineSimilarity_def cosine_loop.simps elem_def)

lemma search_unordered_before:
  "found_ids (fst (search c api unordered_store [1] 5 0.3)) = [''X'', ''Y'', ''Z'']"
  by (simp add: search_def unordered_store_simps found_ids_def scored_def make_record_def
      an_entry_def cosine_1_1 js_sort_def by_score_desc_def slice0_def)

lemma search_unordered_after:
  "found_ids (fst (search c api
       (snd (store c unordered_store ''W'' 6 6 (an_entry ''w'' [1]))) [1] 5 0.3))
     = [''Z'', ''X'', ''W'']"
  by (simp add: search_def unordered_store_simps found_ids_def scored_def make_record_def
      an_entry_def cosine_1_1 js_sort_def by_score_desc_def slice0_def memoryStore_store
      fallback_store by_createdAt_def)

subsection \<open>The capacity bound\<close>

text \<open>
  C1 (as amended). For a Local store whose capacity \<open>maxSize\<close> is at least 1 and below the
  sentinel 999999, and which holds at most \<open>maxSize\<close> records when it starts (as a store
  constructed without a snapshot does), every state reached by calls of \<open>store\<close>,
  \<open>search\<close>, \<open>delete\<close>, \<open>count\<close> and \<open>healthCheck\<close>, and so the state after every
  completed \<open>store\<close>, holds at most \<open>maxSize\<close> records.
\<close>

theorem capacity_invariant:
  assumes "useMemoryFallback (db st0)"
    and "1 \<le> maxSize (db st0)" and "maxSize (db st0) < 999999"
    and "int (length (memoryStore (db st0))) \<le> maxSize (db st0)"
    and "reachable c api st0 st"
  shows "int (length (memoryStore (db st))) \<le> maxSize (db st)"
proof -
  have "useMemoryFallback (db st) \<and> maxSize (db st) = maxSize (db st0)
        \<and> int (length (memoryStore (db st))) \<le> maxSize (db st0)"
    using assms(5)
  proof (induction rule: reachable.induct)
    case start
    show ?case using assms(1,4) by simp
  next
    case (after_store st uuid now now2 e)
    then show ?case
      using store_keeps_bound [of st c uuid now now2 e] assms(2,3)
      by (simp add: maxSize_store fallback_store)
  next
    case (after_search st v limit minScore)
    then show ?case by (simp add: local_search_state)
  next
    case (after_delete st i now)
    then show ?case using local_delete_db [of st c i now] by simp
  next
    case (after_count st)
    then show ?case by (simp add: local_count_state)
  next
    case (after_healthCheck st)
    then show ?case by (simp add: healthCheck_state)
  qed
  then show ?thesis by simp
qed

text \<open>The invariant at scenario A: three records stored, two kept.\<close>

theorem capacity_invariant_witness:
  "useMemoryFallback (db (local_store 2)) \<and> 1 \<le> maxSize (db (local_store 2))
   \<and> maxSize (db (local_store 2)) < 999999
   \<and> int (length (memoryStore (db (local_store 2)))) \<le> maxSize (db (local_store 2))
   \<and> reachable answering_service None (local_store 2) scenario_A
   \<and> int (length (memoryStore (db scenario_A))) \<le> maxSize (db scenario_A)"
proof -
  have h: "useMemoryFallback (db (local_store 2))" "1 \<le> maxSize (db (local_store 2))"
    "maxSize (db (local_store 2)) < 999999"
    "int (length (memoryStore (db (local_store 2)))) \<le> maxSize (db (local_store 2))"
    by (simp_all add: local_store_simps)
  have r: "reachable answering_service None (local_store 2) scenario_A"
    unfolding scenario_A_def scenario_A_full_def
    by (intro reachable.after_store reachable.start)
  show ?thesis
    using h r capacity_invariant [OF h r] by simp
qed

text \<open>The claim as stated fails at the capacity 0, which the constructor accepts: the
  first \<open>store\<close> on the empty store completes and leaves one record.\<close>

theorem capacity_zero_counterexample:
  "useMemoryFallback (db (local_store 0)) \<and> maxSize (db (local_store 0)) = 0
   \<and> fst (store answering_service (local_store 0) ''id-A'' 1 1 (an_entry ''A'' [1, 0]))
       = Inr (make_record ''id-A'' (an_entry ''A'' [1, 0]) 1)
   \<and> maxSize (db (snd (store answering_service (local_store 0) ''id-A'' 1 1
         (an_entry ''A'' [1, 0])))) = 0
   \<and> length (memoryStore (db (snd (store answering_service (local_store 0) ''id-A'' 1 1
         (an_entry ''A'' [1, 0]))))) = 1"
  by (simp add: store_local_simps fst_store_local js_sort_def)

subsection \<open>Eviction\<close>

text \<open>
  C2 (as amended). For every Local store that is not empty and is at finite capacity
  (\<open>maxSize\<close> below the sentinel, size at least \<open>maxSize\<close>), \<open>store\<close> removes exactly one
  record, the one at the first position \<open>k\<close> among the records with the smallest
  \<open>createdAt\<close>, then appends the new record and returns it. In scenario A (capacity 2;
  A, B, C stored at the times 1, 2, 3) the store is left with exactly B and C.
\<close>

theorem store_evicts_oldest:
  "(useMemoryFallback (db st) \<and> maxSize (db st) < 999999
      \<and> maxSize (db st) \<le> int (length (memoryStore (db st))) \<and> memoryStore (db st) \<noteq> []
    \<longrightarrow> (\<exists>k survivors. k < length (memoryStore (db st))
          \<and> (\<forall>r\<in>set (memoryStore (db st)).
                createdAt (memoryStore (db st) ! k) \<le> createdAt r)
          \<and> (\<forall>j<k. createdAt (memoryStore (db st) ! k) < createdAt (memoryStore (db st) ! j))
          \<and> mset survivors = mset (memoryStore (db st)) - {#memoryStore (db st) ! k#}
          \<and> memoryStore (db (snd (store c st uuid now now2 e)))
              = survivors @ [make_record uuid e now]
          \<and> fst (store c st uuid now now2 e) = Inr (make_record uuid e now)))
   \<and> memoryStore (db scenario_A) =
       [make_record ''id-B'' (an_entry ''B'' [0, 1]) 2,
        make_record ''id-C'' (an_entry ''C'' [1, 1]) 3]"
proof (intro conjI impI)
  assume a: "useMemoryFallback (db st) \<and> maxSize (db st) < 999999
      \<and> maxSize (db st) \<le> int (length (memoryStore (db st))) \<and> memoryStore (db st) \<noteq> []"
  define ms where "ms = memoryStore (db st)"
  have ne: "ms \<noteq> []" using a by (simp add: ms_def)
  obtain k where k: "k < length ms" "hd (sort_key createdAt ms) = ms ! k"
    "\<forall>r\<in>set ms. createdAt (ms ! k) \<le> createdAt r" "\<forall>j<k. createdAt (ms ! k) < createdAt (ms ! j)"
    using sort_key_first_min [OF ne, of createdAt] by blast
  define survivors where "survivors = tl (sort_key createdAt ms)"
  have sne: "sort_key createdAt ms \<noteq> []" using ne by (metis length_0_conv length_sort)
  then have split: "sort_key createdAt ms = ms ! k # survivors"
    using k(2) by (cases "sort_key createdAt ms") (simp_all add: survivors_def)
  have "mset (sort_key createdAt ms) = mset ms" by simp
  then have "add_mset (ms ! k) (mset survivors) = mset ms"
    by (simp add: split)
  then have m: "mset survivors = mset ms - {#ms ! k#}"
    by (metis add_mset_remove_trivial)
  have s: "memoryStore (db (snd (store c st uuid now now2 e))) = survivors @ [make_record uuid e now]"
    using a by (simp add: memoryStore_store js_sort_by_createdAt survivors_def ms_def)
  have f: "fst (store c st uuid now now2 e) = Inr (make_record uuid e now)"
    using a by (simp add: fst_store_local)
  show "\<exists>k survivors. k < length (memoryStore (db st))
          \<and> (\<forall>r\<in>set (memoryStore (db st)).
                createdAt (memoryStore (db st) ! k) \<le> createdAt r)
          \<and> (\<forall>j<k. createdAt (memoryStore (db st) ! k) < createdAt (memoryStore (db st) ! j))
          \<and> mset survivors = mset (memoryStore (db st)) - {#memoryStore (db st) ! k#}
          \<and> memoryStore (db (snd (store c st uuid now now2 e)))
              = survivors @ [make_record uuid e now]
          \<and> fst (store c st uuid now now2 e) = Inr (make_record uuid e now)"
    using k m s f unfolding ms_def by blast
next
  show "memoryStore (db scenario_A) =
       [make_record ''id-B'' (an_entry ''B'' [0, 1]) 2,
        make_record ''id-C'' (an_entry ''C'' [1, 1]) 3]"
    by (rule scenario_A_store)
qed

text \<open>The theorem at the third call of scenario A: the store holds A and B, C arrives.\<close>

theorem store_evicts_oldest_witness:
  "useMemoryFallback (db scenario_A_full) \<and> maxSize (db scenario_A_full) < 999999
   \<and> maxSize (db scenario_A_full) \<le> int (length (memoryStore (db scenario_A_full)))
   \<and> memoryStore (db scenario_A_full) \<noteq> []
   \<and> (\<exists>k survivors. k < length (memoryStore (db scenario_A_full))
        \<and> (\<forall>r\<in>set (memoryStore (db scenario_A_full)).
              createdAt (memoryStore (db scenario_A_full) ! k) \<le> createdAt r)
        \<and> mset survivors
            = mset (memoryStore (db scenario_A_full)) - {#memoryStore (db scenario_A_full) ! k#}
        \<and> memoryStore (db (snd (store answering_service scenario_A_full ''id-C'' 3 3
              (an_entry ''C'' [1, 1]))))
            = survivors @ [make_record ''id-C'' (an_entry ''C'' [1, 1]) 3])"
proof -
  have h: "useMemoryFallback (db scenario_A_full) \<and> maxSize (db scenario_A_full) < 999999
      \<and> maxSize (db scenario_A_full) \<le> int (length (memoryStore (db scenario_A_full)))
      \<and> memoryStore (db scenario_A_full) \<noteq> []"
    by (simp add: scenario_A_full_simps)
  from store_evicts_oldest [of scenario_A_full answering_service "''id-C''" 3 3
      "an_entry ''C'' [1, 1]"] h
  show ?thesis by blast
qed

text \<open>The claim as stated fails on the empty store of capacity 0: the store is at
  capacity, \<open>store\<close> finds no record to remove, and the size goes from 0 to 1.\<close>

theorem store_on_empty_counterexample:
  "maxSize (db (local_store 0)) < 999999
   \<and> maxSize (db (local_store 0)) \<le> int (length (memoryStore (db (local_store 0))))
   \<and> memoryStore (db (local_store 0)) = []
   \<and> memoryStore (db (snd (store answering_service (local_store 0) ''id-A'' 1 1
        (an_entry ''A'' [1, 0])))) = [make_record ''id-A'' (an_entry ''A'' [1, 0]) 1]"
  by (simp add: store_local_simps js_sort_def)

text \<open>
  C9. Whenever a Local \<open>store\<close> evicts, the array it shifts is the whole array sorted by
  ascending \<open>createdAt\<close> (a stable permutation of the stored records), so the survivors
  are left in \<open>createdAt\<close> order, followed by the new record. On the store built from the
  unordered snapshot X(5), Y(3), Z(4), a search with three equal scores returns X, Y, Z
  before an evicting \<open>store\<close> and Z, X (then the new W) after it.
\<close>

theorem eviction_sorts_store:
  assumes "useMemoryFallback (db st)" and "maxSize (db st) < 999999"
    and "maxSize (db st) \<le> int (length (memoryStore (db st)))"
  shows "memoryStore (db (snd (store c st uuid now now2 e)))
           = tl (js_sort by_createdAt (memoryStore (db st))) @ [make_record uuid e now]
       \<and> sorted (map createdAt (js_sort by_createdAt (memoryStore (db st))))
       \<and> mset (js_sort by_createdAt (memoryStore (db st))) = mset (memoryStore (db st))
       \<and> (\<forall>t. filter (\<lambda>r. createdAt r = t) (js_sort by_createdAt (memoryStore (db st)))
              = filter (\<lambda>r. createdAt r = t) (memoryStore (db st)))
       \<and> sorted (map createdAt (butlast (memoryStore (db (snd (store c st uuid now now2 e))))))
       \<and> found_ids (fst (search c api unordered_store [1] 5 0.3)) = [''X'', ''Y'', ''Z'']
       \<and> found_ids (fst (search c api
             (snd (store c unordered_store ''W'' 6 6 (an_entry ''w'' [1]))) [1] 5 0.3))
           = [''Z'', ''X'', ''W'']"
proof -
  let ?ms = "memoryStore (db st)"
  have 1: "memoryStore (db (snd (store c st uuid now now2 e)))
           = tl (js_sort by_createdAt ?ms) @ [make_record uuid e now]"
    using assms by (simp add: memoryStore_store)
  have 2: "sorted (map createdAt (js_sort by_createdAt ?ms))"
    by (simp add: js_sort_by_createdAt)
  have 3: "mset (js_sort by_createdAt ?ms) = mset ?ms"
    by (simp add: js_sort_by_createdAt)
  have 4: "\<forall>t. filter (\<lambda>r. createdAt r = t) (js_sort by_createdAt ?ms)
              = filter (\<lambda>r. createdAt r = t) ?ms"
    by (simp add: js_sort_by_createdAt sort_key_stable)
  have "sorted (map createdAt (tl (js_sort by_createdAt ?ms)))"
    using 2 by (simp add: map_tl sorted_tl)
  then have 5: "sorted (map createdAt (butlast (memoryStore (db (snd (store c st uuid now now2 e))))))"
    by (simp add: 1)
  show ?thesis
    using 1 2 3 4 5 search_unordered_before search_unordered_after by blast
qed

text \<open>The theorem at the store of the unordered snapshot, which is full when W arrives.\<close>

theorem eviction_sorts_store_witness:
  "useMemoryFallback (db unordered_store) \<and> maxSize (db unordered_store) < 999999
   \<and> maxSize (db unordered_store) \<le> int (length (memoryStore (db unordered_store)))
   \<and> map id_field (memoryStore (db unordered_store)) = [''X'', ''Y'', ''Z'']
   \<and> map id_field (memoryStore (db (snd
         (store answering_service unordered_store ''W'' 6 6 (an_entry ''w'' [1])))))
       = [''Z'', ''X'', ''W'']"
proof -
  have h: "useMemoryFallback (db unordered_store)" "maxSize (db unordered_store) < 999999"
    "maxSize (db unordered_store) \<le> int (length (memoryStore (db unordered_store)))"
    by (simp_all add: unordered_store_simps)
  have "memoryStore (db (snd
         (store answering_service unordered_store ''W'' 6 6 (an_entry ''w'' [1]))))
        = tl (js_sort by_createdAt (memoryStore (db unordered_store)))
            @ [make_record ''W'' (an_entry ''w'' [1]) 6]"
    using eviction_sorts_store [OF h] by blast
  then show ?thesis
    using h by (simp add: unordered_store_simps js_sort_by_createdAt make_record_def)
qed

subsection \<open>Local search\<close>


lemma cmp_le0_by_score_desc:
  "score a \<noteq> NaN \<Longrightarrow> score b \<noteq> NaN \<Longrightarrow>
   cmp_le0 (by_score_desc a b) = (- score_value a \<le> - score_value b)"
  by (cases "score a"; cases "score b") (simp_all add: by_score_desc_def score_value_def)

lemma js_insert_by_score_desc:
  "score x \<noteq> NaN \<Longrightarrow> \<forall>y\<in>set ys. score y \<noteq> NaN \<Longrightarrow>
   js_insert by_score_desc x ys = insort_key (\<lambda>r. - score_value r) x ys"
  by (induction ys) (simp_all add: cmp_le0_by_score_desc)

lemma js_sort_by_score_desc:
  "\<forall>y\<in>set xs. score y \<noteq> NaN \<Longrightarrow>
   js_sort by_score_desc xs = sort_key (\<lambda>r. - score_value r) xs"
proof (induction xs)
  case Nil
  then show ?case by (simp add: js_sort_def)
next
  case (Cons x xs)
  then have "js_sort by_score_desc xs = sort_key (\<lambda>r. - score_value r) xs" by simp
  moreover have "\<forall>y\<in>set (sort_key (\<lambda>r. - score_value r) xs). score y \<noteq> NaN"
    using Cons.prems by simp
  ultimately show ?case
    using Cons.prems js_insert_by_score_desc [of x "sort_key (\<lambda>r. - score_value r) xs"]
    by (simp add: js_sort_def)
qed

lemma jge_Num: "jge x (Num m) = (\<exists>s. x = Num s \<and> m \<le> s)"
  by (cases x) simp_all

lemma prefix_filter_take: "prefix (filter P (take n xs)) (filter P xs)"
proof -
  have "filter P xs = filter P (take n xs) @ filter P (drop n xs)"
    by (metis append_take_drop_id filter_append)
  then show ?thesis by (metis prefixI)
qed

lemma sorted_wrt_ties:
  "(\<And>s. sorted_wrt R (filter (\<lambda>r. f r = s) xs)) \<Longrightarrow>
   sorted_wrt (\<lambda>a b. f a = f b \<longrightarrow> R a b) xs"
proof (induction xs)
  case Nil
  show ?case by simp
next
  case (Cons x xs)
  have "sorted_wrt R (filter (\<lambda>r. f r = s) xs)" for s
    using Cons.prems [of s] by (cases "f x = s") simp_all
  then have tl: "sorted_wrt (\<lambda>a b. f a = f b \<longrightarrow> R a b) xs"
    by (rule Cons.IH)
  have "\<forall>y\<in>set xs. f x = f y \<longrightarrow> R x y"
    using Cons.prems [of "f x"] by auto
  with tl show ?case by simp
qed

lemma sorted_wrt_prefix: "prefix xs ys \<Longrightarrow> sorted_wrt R ys \<Longrightarrow> sorted_wrt R xs"
  by (auto simp: prefix_def sorted_wrt_append)

lemma fst_search_local:
  "useMemoryFallback (db st) \<Longrightarrow>
   fst (search c api st v limit minScore) =
     Inr (slice0 (js_sort by_score_desc
       (filter (\<lambda>r. jge (score r) (Num minScore)) (map (scored v) (memoryStore (db st))))) limit)"
  by (simp add: search_def)

lemma search_local_sorted:
  assumes "0 \<le> limit"
  shows "slice0 (js_sort by_score_desc
       (filter (\<lambda>r. jge (score r) (Num m)) (map (scored v) ms))) limit
     = take (nat limit) (sort_key (\<lambda>r. - score_value r)
         (filter (\<lambda>r. jge (score r) (Num m)) (map (scored v) ms)))"
proof -
  have "\<forall>y\<in>set (filter (\<lambda>r. jge (score r) (Num m)) (map (scored v) ms)). score y \<noteq> NaN"
    by (auto simp: jge_Num)
  then show ?thesis
    using assms by (simp add: js_sort_by_score_desc slice0_def)
qed

lemma score_value_Num: "score r = Num s \<Longrightarrow> score_value r = s"
  by (simp add: score_value_def)

lemma filter_score_sort:
  assumes "\<forall>r\<in>set xs. score r \<noteq> NaN"
  shows "filter (\<lambda>r. score r = Num s) (sort_key (\<lambda>r. - score_value r) xs)
       = filter (\<lambda>r. score r = Num s) xs"
proof -
  have eq: "(score r = Num s) = (- score_value r = - s)" if "r \<in> set xs" for r
    using assms that by (cases "score r") (auto simp: score_value_def)
  have "filter (\<lambda>r. score r = Num s) (sort_key (\<lambda>r. - score_value r) xs)
      = filter (\<lambda>r. - score_value r = - s) (sort_key (\<lambda>r. - score_value r) xs)"
    by (rule filter_cong) (simp_all add: eq)
  also have "\<dots> = filter (\<lambda>r. - score_value r = - s) xs"
    by (rule sort_key_stable)
  also have "\<dots> = filter (\<lambda>r. score r = Num s) xs"
    by (rule filter_cong) (simp_all add: eq)
  finally show ?thesis .
qed

lemma prefix_filter_filter:
  "prefix (filter (\<lambda>r. score r = Num s) (filter (\<lambda>r. jge (score r) (Num m)) xs))
          (filter (\<lambda>r. score r = Num s) xs)"
proof (cases "m \<le> s")
  case True
  have "filter (\<lambda>r. score r = Num s) (filter (\<lambda>r. jge (score r) (Num m)) xs)
      = filter (\<lambda>r. score r = Num s) xs"
    unfolding filter_filter by (rule filter_cong) (use True in auto)
  then show ?thesis by simp
next
  case False
  have "filter (\<lambda>r. score r = Num s) (filter (\<lambda>r. jge (score r) (Num m)) xs) = []"
    unfolding filter_filter using False by (auto simp: filter_empty_conv)
  then show ?thesis by simp
qed

lemma search_local_ranking:
  fixes ms :: "memory_record list" and v :: "real list" and m :: real and limit :: int
  assumes "0 \<le> limit"
  defines "rs \<equiv> slice0 (js_sort by_score_desc
       (filter (\<lambda>r. jge (score r) (Num m)) (map (scored v) ms))) limit"
  shows "length rs \<le> nat limit"
    and "\<forall>r\<in>set rs. \<exists>s. score r = Num s \<and> m \<le> s"
    and "sorted_wrt (\<lambda>a b. jge (score a) (score b)) rs"
    and "\<forall>s. prefix (filter (\<lambda>r. score r = Num s) rs)
                 (filter (\<lambda>r. score r = Num s) (map (scored v) ms))"
    and "\<forall>r\<in>set rs. vector (entry r) = []"
    and "set rs \<subseteq> scored v ` set ms"
proof -
  let ?G = "map (scored v) ms"
  let ?F = "filter (\<lambda>r. jge (score r) (Num m)) ?G"
  let ?key = "\<lambda>r. - score_value r"
  have rs: "rs = take (nat limit) (sort_key ?key ?F)"
    unfolding rs_def using assms(1) by (rule search_local_sorted)
  have sub: "set rs \<subseteq> set ?F"
    unfolding rs using set_take_subset [of "nat limit" "sort_key ?key ?F"] by simp
  have num: "\<forall>r\<in>set ?F. score r \<noteq> NaN" by (auto simp: jge_Num)
  show "length rs \<le> nat limit" by (simp add: rs)
  show ge: "\<forall>r\<in>set rs. \<exists>s. score r = Num s \<and> m \<le> s"
    using sub by (auto simp: jge_Num)
  show "set rs \<subseteq> scored v ` set ms" using sub by auto
  show "\<forall>r\<in>set rs. vector (entry r) = []"
    using sub by (auto simp: scored_def)
  have "sorted (map ?key (sort_key ?key ?F))" by simp
  then have "sorted (map ?key rs)"
    unfolding rs by (simp add: take_map [symmetric] sorted_wrt_take)
  then have "sorted_wrt (\<lambda>a b. score_value b \<le> score_value a) rs"
    by (simp add: sorted_map)
  then show "sorted_wrt (\<lambda>a b. jge (score a) (score b)) rs"
  proof (rule sorted_wrt_mono_rel [rotated])
    fix a b assume ab: "a \<in> set rs" "b \<in> set rs" "score_value b \<le> score_value a"
    obtain x y where "score a = Num x" "score b = Num y"
      using ge ab(1,2) by blast
    then show "jge (score a) (score b)"
      using ab(3) by (simp add: score_value_def)
  qed
  show "\<forall>s. prefix (filter (\<lambda>r. score r = Num s) rs) (filter (\<lambda>r. score r = Num s) ?G)"
  proof
    fix s
    have p1: "prefix (filter (\<lambda>r. score r = Num s) rs)
                 (filter (\<lambda>r. score r = Num s) (sort_key ?key ?F))"
      unfolding rs by (rule prefix_filter_take)
    have e: "filter (\<lambda>r. score r = Num s) (sort_key ?key ?F) = filter (\<lambda>r. score r = Num s) ?F"
      using num by (rule filter_score_sort)
    have p2: "prefix (filter (\<lambda>r. score r = Num s) ?F) (filter (\<lambda>r. score r = Num s) ?G)"
      by (rule prefix_filter_filter)
    from p1 [unfolded e] p2
    show "prefix (filter (\<lambda>r. score r = Num s) rs) (filter (\<lambda>r. score r = Num s) ?G)"
      by (rule prefix_order.order_trans)
  qed
qed

lemma search_local_ties:
  fixes ms :: "memory_record list"
  assumes "sorted (map createdAt ms)"
    and "\<forall>s. prefix (filter (\<lambda>r. score r = Num s) rs)
                 (filter (\<lambda>r. score r = Num s) (map (scored v) ms))"
    and "\<forall>r\<in>set rs. \<exists>s. score r = Num s"
  shows "sorted_wrt (\<lambda>a b. score a = score b \<longrightarrow> createdAt (entry a) \<le> createdAt (entry b)) rs"
proof (rule sorted_wrt_ties [where f = score
      and R = "\<lambda>a b. createdAt (entry a) \<le> createdAt (entry b)"])
  fix x
  have c: "map (\<lambda>r. createdAt (entry r)) (map (scored v) ms) = map createdAt ms"
    by (simp add: scored_def)
  show "sorted_wrt (\<lambda>a b. createdAt (entry a) \<le> createdAt (entry b)) (filter (\<lambda>r. score r = x) rs)"
  proof (cases x)
    case NaN
    then have "filter (\<lambda>r. score r = x) rs = []"
      using assms(3) by (auto simp: filter_empty_conv)
    then show ?thesis by simp
  next
    case (Num s)
    have "sorted (map (\<lambda>r. createdAt (entry r)) (map (scored v) ms))"
      using assms(1) by (simp only: c)
    then have "sorted (map (\<lambda>r. createdAt (entry r)) (filter (\<lambda>r. score r = Num s) (map (scored v) ms)))"
      by (rule sorted_filter)
    then have "sorted_wrt (\<lambda>a b. createdAt (entry a) \<le> createdAt (entry b))
        (filter (\<lambda>r. score r = Num s) (map (scored v) ms))"
      by (simp add: sorted_map)
    moreover have "prefix (filter (\<lambda>r. score r = Num s) rs)
        (filter (\<lambda>r. score r = Num s) (map (scored v) ms))"
      using assms(2) by blast
    ultimately show ?thesis
      unfolding Num by (rule sorted_wrt_prefix [rotated])
  qed
qed

text \<open>
  C3 (as amended). For every Local store state, every query vector, every \<open>limit\<close> that
  is not negative and every \<open>minScore\<close>, \<open>search\<close> returns at most \<open>limit\<close> entries, each
  with a score at least \<open>minScore\<close>, in descending order of score; entries of equal score
  keep the order their records have in the stored array, which is the order of earliest
  \<open>createdAt\<close> when the array is in \<open>createdAt\<close> order; and the vector of every returned
  entry is empty.
\<close>

theorem search_local_ranked:
  assumes "useMemoryFallback (db st)" and "0 \<le> limit"
  shows "\<exists>rs. fst (search c api st v limit minScore) = Inr rs
      \<and> length rs \<le> nat limit
      \<and> (\<forall>r\<in>set rs. jge (score r) (Num minScore))
      \<and> sorted_wrt (\<lambda>a b. jge (score a) (score b)) rs
      \<and> (\<forall>s. prefix (filter (\<lambda>r. score r = Num s) rs)
                 (filter (\<lambda>r. score r = Num s) (map (scored v) (memoryStore (db st)))))
      \<and> (sorted (map createdAt (memoryStore (db st))) \<longrightarrow>
           sorted_wrt (\<lambda>a b. score a = score b \<longrightarrow> createdAt (entry a) \<le> createdAt (entry b)) rs)
      \<and> (\<forall>r\<in>set rs. vector (entry r) = [])"
proof -
  define rs where "rs = slice0 (js_sort by_score_desc
       (filter (\<lambda>r. jge (score r) (Num minScore)) (map (scored v) (memoryStore (db st))))) limit"
  note r = search_local_ranking [OF assms(2), of minScore v "memoryStore (db st)", folded rs_def]
  have 0: "fst (search c api st v limit minScore) = Inr rs"
    using assms(1) by (simp add: fst_search_local rs_def)
  have 2: "\<forall>r\<in>set rs. jge (score r) (Num minScore)"
    using r(2) by (simp add: jge_Num)
  have 5: "sorted (map createdAt (memoryStore (db st))) \<longrightarrow>
           sorted_wrt (\<lambda>a b. score a = score b \<longrightarrow> createdAt (entry a) \<le> createdAt (entry b)) rs"
  proof
    assume s: "sorted (map createdAt (memoryStore (db st)))"
    have "\<forall>r\<in>set rs. \<exists>s. score r = Num s" using r(2) by blast
    with s r(4) show "sorted_wrt (\<lambda>a b. score a = score b \<longrightarrow> createdAt (entry a) \<le> createdAt (entry b)) rs"
      by (rule search_local_ties)
  qed
  show ?thesis
    using 0 r(1) 2 r(3) r(4) 5 r(5) by blast
qed

text \<open>The theorem at the store that holds A and B of scenario A, asked for one entry.\<close>

theorem search_local_ranked_witness:
  "useMemoryFallback (db scenario_A_full) \<and> (0::int) \<le> 1
   \<and> sorted (map createdAt (memoryStore (db scenario_A_full)))
   \<and> (\<exists>rs. fst (search answering_service None scenario_A_full [1, 1] 1 0.3) = Inr rs
        \<and> length rs \<le> nat 1
        \<and> (\<forall>r\<in>set rs. jge (score r) (Num 0.3))
        \<and> sorted_wrt (\<lambda>a b. jge (score a) (score b)) rs
        \<and> sorted_wrt (\<lambda>a b. score a = score b \<longrightarrow> createdAt (entry a) \<le> createdAt (entry b)) rs
        \<and> (\<forall>r\<in>set rs. vector (entry r) = []))"
proof -
  have h: "useMemoryFallback (db scenario_A_full)" "(0::int) \<le> 1"
    by (simp_all add: scenario_A_full_simps)
  have s: "sorted (map createdAt (memoryStore (db scenario_A_full)))"
    by (simp add: scenario_A_full_simps make_record_def)
  from search_local_ranked [OF h, of answering_service None "[1, 1]" "0.3"] h s
  show ?thesis by blast
qed

text \<open>The claim as stated fails on the store of the unordered snapshot: the three
  records score 1, and X, created at 5, is returned before Y, created at 3.\<close>

theorem search_ties_counterexample:
  "(0::int) \<le> 5 \<and> (-1::real) \<le> 0.3 \<and> (0.3::real) \<le> 1
   \<and> fst (search answering_service None unordered_store [1] 5 0.3)
     = Inr [\<lparr>entry = \<lparr>text = ''x'', vector = [], category = ''fact'', importance = 0.5,
                       id_field = ''X'', createdAt = 5\<rparr>, score = Num 1\<rparr>,
            \<lparr>entry = \<lparr>text = ''y'', vector = [], category = ''fact'', importance = 0.5,
                       id_field = ''Y'', createdAt = 3\<rparr>, score = Num 1\<rparr>,
            \<lparr>entry = \<lparr>text = ''z'', vector = [], category = ''fact'', importance = 0.5,
                       id_field = ''Z'', createdAt = 4\<rparr>, score = Num 1\<rparr>]"
  by (simp add: search_def unordered_store_simps scored_def make_record_def
      an_entry_def cosine_1_1 js_sort_def by_score_desc_def slice0_def)

subsection \<open>Vectors of different lengths\<close>

lemma jadd_NaN [simp]: "jadd x NaN = NaN" "jadd NaN y = NaN"
  by (cases x) simp_all

lemma jmul_NaN [simp]: "jmul x NaN = NaN" "jmul NaN y = NaN"
  by (cases x) simp_all

lemma jdiv_NaN [simp]: "jdiv x NaN = NaN" "jdiv NaN y = NaN"
  by (cases x) simp_all

lemma cosine_loop_NaN:
  "\<exists>na. cosine_loop a b i (NaN, normA, NaN) = (NaN, na, NaN)"
proof (induction a b i "(NaN, normA, NaN)" arbitrary: normA rule: cosine_loop.induct)
  case (1 a b i normA)
  show ?case
  proof (cases "i < length a")
    case True
    then show ?thesis
      using "1" by (subst cosine_loop.simps) simp
  next
    case False
    then show ?thesis by (subst cosine_loop.simps) simp
  qed
qed

lemma cosine_loop_short:
  "i \<le> length b \<Longrightarrow> length b < length a \<Longrightarrow>
   \<exists>na. cosine_loop a b i (dot, normA, normB) = (NaN, na, NaN)"
proof (induction a b i "(dot, normA, normB)" arbitrary: dot normA normB rule: cosine_loop.induct)
  case (1 a b i dot normA normB)
  have lt: "i < length a" using "1.prems" by simp
  show ?case
  proof (cases "i = length b")
    case True
    then have "elem b i = NaN" by (simp add: elem_def)
    then show ?thesis
      using lt cosine_loop_NaN [of a b "Suc i"] by (subst cosine_loop.simps) simp
  next
    case False
    then have "Suc i \<le> length b" using "1.prems" by simp
    then show ?thesis
      using lt "1.hyps" "1.prems" by (subst cosine_loop.simps) simp
  qed
qed

lemma cosineSimilarity_short:
  "length b < length a \<Longrightarrow> cosineSimilarity a b = NaN"
proof -
  assume l: "length b < length a"
  obtain na where "cosine_loop a b 0 (Num 0, Num 0, Num 0) = (NaN, na, NaN)"
    using cosine_loop_short [of 0 b a "Num 0" "Num 0" "Num 0"] l by auto
  then show ?thesis
    by (simp add: cosineSimilarity_def)
qed

lemma elem_take: "i < n \<Longrightarrow> elem (take n b) i = elem b i"
  by (simp add: elem_def)

lemma cosine_loop_take:
  "cosine_loop a (take (length a) b) i acc = cosine_loop a b i acc"
proof (induction a b i acc rule: cosine_loop.induct)
  case (1 a b i dot normA normB)
  show ?case
  proof (cases "i < length a")
    case True
    then show ?thesis
      using "1"
      by (subst cosine_loop.simps, subst (2) cosine_loop.simps) (simp add: elem_take)
  next
    case False
    then show ?thesis
      by (subst cosine_loop.simps, subst (2) cosine_loop.simps) simp
  qed
qed

lemma cosineSimilarity_take:
  "cosineSimilarity a (take (length a) b) = cosineSimilarity a b"
  by (simp add: cosineSimilarity_def cosine_loop_take)

lemma filter_scored_short:
  "filter (\<lambda>r. jge (score r) (Num m)) (map (scored v) (filter (\<lambda>r. length v \<le> length (vector r)) ms))
   = filter (\<lambda>r. jge (score r) (Num m)) (map (scored v) ms)"
  by (induction ms) (auto simp: scored_def cosineSimilarity_short)

lemma set_js_insert: "set (js_insert cmp x ys) = insert x (set ys)"
  by (induction ys) auto

lemma set_js_sort: "set (js_sort cmp xs) = set xs"
  by (induction xs) (simp_all add: js_sort_def set_js_insert)

lemma set_slice0: "set (slice0 xs n) \<subseteq> set xs"
  by (auto simp: slice0_def dest: in_set_takeD)

text \<open>
  C10. A Local \<open>search\<close> returns a list and never throws, whatever the lengths of the
  query and of the stored vectors. A stored record whose vector is shorter than the query
  scores NaN and is not among the results, which are those of the store without such
  records. When the query is not longer than a vector, the score is computed on the prefix
  of the vector that has the query's length.
\<close>

theorem search_length_mismatch:
  assumes "useMemoryFallback (db st)"
  shows "(\<exists>rs. fst (search c api st v limit minScore) = Inr rs
           \<and> (\<forall>r\<in>set (memoryStore (db st)). length (vector r) < length v \<longrightarrow>
                 cosineSimilarity v (vector r) = NaN \<and> scored v r \<notin> set rs))
       \<and> fst (search c api st v limit minScore)
           = fst (search c api
               (st\<lparr>db := (db st)\<lparr>memoryStore :=
                   filter (\<lambda>r. length v \<le> length (vector r)) (memoryStore (db st))\<rparr>\<rparr>)
               v limit minScore)
       \<and> (\<forall>b. length v \<le> length b \<longrightarrow>
             cosineSimilarity v b = cosineSimilarity v (take (length v) b))"
proof -
  define rs where "rs = slice0 (js_sort by_score_desc
       (filter (\<lambda>r. jge (score r) (Num minScore)) (map (scored v) (memoryStore (db st))))) limit"
  have 0: "fst (search c api st v limit minScore) = Inr rs"
    using assms by (simp add: fst_search_local rs_def)
  have sub: "\<forall>x\<in>set rs. jge (score x) (Num minScore)"
    using set_slice0 [of "js_sort by_score_desc
       (filter (\<lambda>r. jge (score r) (Num minScore)) (map (scored v) (memoryStore (db st))))" limit]
    by (auto simp: rs_def set_js_sort)
  have 1: "\<forall>r\<in>set (memoryStore (db st)). length (vector r) < length v \<longrightarrow>
                 cosineSimilarity v (vector r) = NaN \<and> scored v r \<notin> set rs"
  proof (intro ballI impI conjI)
    fix r :: memory_record
    assume l: "length (vector r) < length v"
    show n: "cosineSimilarity v (vector r) = NaN"
      using l by (rule cosineSimilarity_short)
    have "\<not> jge (score (scored v r)) (Num minScore)"
      by (simp add: scored_def n)
    then show "scored v r \<notin> set rs"
      using sub by blast
  qed
  have 2: "fst (search c api st v limit minScore)
           = fst (search c api
               (st\<lparr>db := (db st)\<lparr>memoryStore :=
                   filter (\<lambda>r. length v \<le> length (vector r)) (memoryStore (db st))\<rparr>\<rparr>)
               v limit minScore)"
    using assms by (simp add: fst_search_local filter_scored_short)
  have 3: "\<forall>b. length v \<le> length b \<longrightarrow>
             cosineSimilarity v b = cosineSimilarity v (take (length v) b)"
    by (simp add: cosineSimilarity_take)
  show ?thesis using 0 1 2 3 by blast
qed

text \<open>The theorem at the store that holds A and B of scenario A, whose vectors have
  length 2: a query of length 3 finds nothing, a query of length 1 reads one component.\<close>

theorem search_length_mismatch_witness:
  "useMemoryFallback (db scenario_A_full)
   \<and> map (\<lambda>r. length (vector r)) (memoryStore (db scenario_A_full)) = [2, 2]
   \<and> length [1, 0, 0::real] = 3
   \<and> fst (search answering_service None scenario_A_full [1, 0, 0] 5 0.3) = Inr []
   \<and> length [1::real] \<le> length [1, 0::real]
   \<and> cosineSimilarity [1] [1, 0] = cosineSimilarity [1] (take (length [1::real]) [1, 0])"
proof -
  have h: "useMemoryFallback (db scenario_A_full)"
    by (simp add: scenario_A_full_simps)
  have l: "map (\<lambda>r. length (vector r)) (memoryStore (db scenario_A_full)) = [2, 2]"
    "length [1, 0, 0::real] = 3"
    by (simp_all add: scenario_A_full_simps make_record_def an_entry_def)
  note t = search_length_mismatch [OF h, of answering_service None "[1, 0, 0]" 5 "0.3"]
  have "fst (search answering_service None scenario_A_full [1, 0, 0] 5 0.3)
      = fst (search answering_service None
               (scenario_A_full\<lparr>db := (db scenario_A_full)\<lparr>memoryStore :=
                   filter (\<lambda>r. length [1, 0, 0::real] \<le> length (vector r))
                     (memoryStore (db scenario_A_full))\<rparr>\<rparr>)
               [1, 0, 0] 5 0.3)"
    using t by blast
  also have "\<dots> = Inr []"
    using h by (simp add: search_def scenario_A_full_simps make_record_def an_entry_def
        js_sort_def slice0_def)
  finally have e: "fst (search answering_service None scenario_A_full [1, 0, 0] 5 0.3) = Inr []" .
  have "\<forall>b. length [1::real] \<le> length b \<longrightarrow>
      cosineSimilarity [1] b = cosineSimilarity [1] (take (length [1::real]) b)"
    using search_length_mismatch [OF h, of answering_service None "[1]" 5 "0.3"] by blast
  from this [rule_format, of "[1, 0]"]
  have p: "cosineSimilarity [1] [1, 0] = cosineSimilarity [1] (take (length [1::real]) [1, 0])"
    by simp
  show ?thesis
    using h l e p by (intro conjI) simp_all
qed

subsection \<open>The similarity in exact arithmetic\<close>

text \<open>
  C7 speaks of the doubles the program computes with: a bound on the result, an exact 0
  and an approximate 1. The model has no rounding, so it does not state C7. What it can
  state is the arithmetic the code aims at: on vectors of equal length the loop computes
  the three sums, and the quotient, taken in exact reals, is the cosine, lies between -1
  and 1, is 0 when a norm is 0 and is 1 on a vector with itself. On doubles every
  operation rounds, and the lemmas below are not bounds on the rounded result.
\<close>

lemma cosine_loop_exact:
  "length a \<le> length b \<Longrightarrow> i \<le> length a \<Longrightarrow>
   cosine_loop a b i (Num d, Num x, Num y) =
     (Num (d + (\<Sum>k = i..<length a. a ! k * b ! k)),
      Num (x + (\<Sum>k = i..<length a. a ! k * a ! k)),
      Num (y + (\<Sum>k = i..<length a. b ! k * b ! k)))"
proof (induction a b i "(Num d, Num x, Num y)" arbitrary: d x y rule: cosine_loop.induct)
  case (1 a b i d x y)
  show ?case
  proof (cases "i < length a")
    case True
    then have e: "elem a i = Num (a ! i)" "elem b i = Num (b ! i)"
      using "1.prems" by (simp_all add: elem_def)
    have s: "(\<Sum>k = i..<length a. f k) = f i + (\<Sum>k = Suc i..<length a. f k)" for f :: "nat \<Rightarrow> real"
      using True by (simp add: sum.atLeast_Suc_lessThan)
    show ?thesis
      using True "1.prems" "1.hyps" [OF True, of "d + a ! i * b ! i" "x + a ! i * a ! i" "y + b ! i * b ! i"]
      by (subst cosine_loop.simps) (simp add: e s add.assoc)
  next
    case False
    then show ?thesis
      using "1.prems" by (subst cosine_loop.simps) simp
  qed
qed

lemma cauchy_schwarz_sum:
  fixes f g :: "nat \<Rightarrow> real"
  shows "(\<Sum>k<n. f k * g k)\<^sup>2 \<le> (\<Sum>k<n. f k * f k) * (\<Sum>k<n. g k * g k)"
proof -
  let ?A = "\<Sum>k<n. f k * f k" and ?B = "\<Sum>k<n. g k * g k" and ?D = "\<Sum>k<n. f k * g k"
  have A0: "0 \<le> ?A" by (simp add: sum_nonneg)
  have B0: "0 \<le> ?B" by (simp add: sum_nonneg)
  show ?thesis
  proof (cases "?A = 0")
    case True
    have "\<forall>k\<in>{..<n}. f k * f k = 0"
      using True by (subst (asm) sum_nonneg_eq_0_iff) simp_all
    then have "?D = 0" by simp
    then show ?thesis using True by simp
  next
    case False
    then have Apos: "0 < ?A" using A0 by simp
    have q: "0 \<le> (\<Sum>k<n. (f k * t + g k)\<^sup>2)" for t
      by (simp add: sum_nonneg)
    have expand: "(\<Sum>k<n. (f k * t + g k)\<^sup>2) = t\<^sup>2 * ?A + 2 * t * ?D + ?B" for t
      by (simp add: power2_sum power2_eq_square sum.distrib sum_distrib_left algebra_simps)
    have "0 \<le> (- ?D / ?A)\<^sup>2 * ?A + 2 * (- ?D / ?A) * ?D + ?B"
      using q [of "- ?D / ?A"] unfolding expand .
    also have "(- ?D / ?A)\<^sup>2 * ?A + 2 * (- ?D / ?A) * ?D + ?B = ?B - ?D\<^sup>2 / ?A"
      using False by (simp add: power2_eq_square field_simps)
    finally have "?D\<^sup>2 / ?A \<le> ?B" by simp
    then show ?thesis
      using Apos by (simp add: pos_divide_le_eq mult.commute)
  qed
qed

lemma cosineSimilarity_exact:
  assumes "length a = length b"
  shows "cosineSimilarity a b =
     Num (if sqrt (\<Sum>k<length a. a ! k * a ! k) * sqrt (\<Sum>k<length a. b ! k * b ! k) = 0 then 0
          else (\<Sum>k<length a. a ! k * b ! k)
               / (sqrt (\<Sum>k<length a. a ! k * a ! k) * sqrt (\<Sum>k<length a. b ! k * b ! k)))"
proof -
  have A0: "0 \<le> (\<Sum>k<length a. a ! k * a ! k)" by (simp add: sum_nonneg)
  have B0: "0 \<le> (\<Sum>k<length a. b ! k * b ! k)" by (simp add: sum_nonneg)
  have "cosine_loop a b 0 (Num 0, Num 0, Num 0) =
     (Num (\<Sum>k<length a. a ! k * b ! k), Num (\<Sum>k<length a. a ! k * a ! k),
      Num (\<Sum>k<length a. b ! k * b ! k))"
    using cosine_loop_exact [of a b 0 0 0 0] assms by (simp add: lessThan_atLeast0)
  then show ?thesis
    using A0 B0 by (simp add: cosineSimilarity_def Let_def)
qed

lemma quotient_bounds:
  fixes d m :: real
  shows "\<bar>d\<bar> \<le> m \<Longrightarrow> 0 < m \<Longrightarrow> - 1 \<le> d / m \<and> d / m \<le> 1"
  by (simp add: pos_le_divide_eq pos_divide_le_eq abs_le_iff)

lemma cosineSimilarity_exact_bounds:
  assumes "length a = length b"
  shows "\<exists>s. cosineSimilarity a b = Num s \<and> - 1 \<le> s \<and> s \<le> 1"
proof -
  let ?A = "\<Sum>k<length a. a ! k * a ! k" and ?B = "\<Sum>k<length a. b ! k * b ! k"
  let ?D = "\<Sum>k<length a. a ! k * b ! k"
  have A0: "0 \<le> ?A" by (simp add: sum_nonneg)
  have B0: "0 \<le> ?B" by (simp add: sum_nonneg)
  have "?D\<^sup>2 \<le> ?A * ?B" by (rule cauchy_schwarz_sum)
  then have "sqrt (?D\<^sup>2) \<le> sqrt (?A * ?B)" by (simp only: real_sqrt_le_iff)
  then have le: "\<bar>?D\<bar> \<le> sqrt ?A * sqrt ?B" by (simp add: real_sqrt_mult)
  show ?thesis
  proof (cases "sqrt ?A * sqrt ?B = 0")
    case True
    then show ?thesis by (simp add: cosineSimilarity_exact [OF assms])
  next
    case False
    have "0 \<le> sqrt ?A * sqrt ?B" using A0 B0 by simp
    with False have pos: "0 < sqrt ?A * sqrt ?B" by linarith
    have e: "cosineSimilarity a b = Num (?D / (sqrt ?A * sqrt ?B))"
      using False by (simp only: cosineSimilarity_exact [OF assms] if_False)
    show ?thesis
      using quotient_bounds [OF le pos] unfolding e by blast
  qed
qed

lemma cosineSimilarity_exact_zero:
  assumes "length a = length b"
    and "(\<Sum>k<length a. a ! k * a ! k) = 0 \<or> (\<Sum>k<length a. b ! k * b ! k) = 0"
  shows "cosineSimilarity a b = Num 0"
  using assms(2) by (auto simp: cosineSimilarity_exact [OF assms(1)])

lemma cosineSimilarity_exact_self:
  assumes "(\<Sum>k<length a. a ! k * a ! k) \<noteq> 0"
  shows "cosineSimilarity a a = Num 1"
proof -
  have "0 \<le> (\<Sum>k<length a. a ! k * a ! k)" by (simp add: sum_nonneg)
  then show ?thesis
    using assms by (simp add: cosineSimilarity_exact)
qed

subsection \<open>Delete\<close>

lemma findIndex_none: "(findIndex P xs = -1) = (\<forall>x\<in>set xs. \<not> P x)"
proof (induction xs)
  case Nil
  show ?case by simp
next
  case (Cons x xs)
  have "findIndex P xs = -1 \<or> 0 \<le> findIndex P xs"
    using findIndex_range [of P xs] by blast
  then show ?case using Cons.IH by (auto simp: Let_def)
qed

lemma findIndex_first:
  "findIndex P xs \<noteq> -1 \<Longrightarrow>
   nat (findIndex P xs) < length xs \<and> P (xs ! nat (findIndex P xs))
   \<and> (\<forall>j<nat (findIndex P xs). \<not> P (xs ! j))"
proof (induction xs)
  case Nil
  then show ?case by simp
next
  case (Cons x xs)
  show ?case
  proof (cases "P x")
    case True
    then show ?thesis by simp
  next
    case False
    then have n: "findIndex P xs \<noteq> -1" using Cons.prems by (auto simp: Let_def)
    then have r: "0 \<le> findIndex P xs" using findIndex_range [of P xs] by blast
    have e: "findIndex P (x # xs) = findIndex P xs + 1"
      using False n by (simp add: Let_def)
    have s: "nat (findIndex P xs + 1) = Suc (nat (findIndex P xs))"
      using r by simp
    show ?thesis
      using Cons.IH [OF n] False unfolding e s
      by (auto simp: less_Suc_eq_0_disj)
  qed
qed

lemma remote_delete_returns_true:
  "\<not> useMemoryFallback (db st) \<Longrightarrow> fst (delete c st i now) = Inr r \<Longrightarrow> r"
  by (auto simp: delete_def split: prod.splits sum.splits)

text \<open>
  C5 (as amended). On the Local backend \<open>delete\<close> never throws and returns true if and
  only if a record with that id is stored, false otherwise; on an absent id the state is
  unchanged, on a present id exactly the first record with that id is removed. On the
  Remote backend \<open>delete\<close> never returns false: it returns true whenever its backend
  calls succeed, whether or not a point with that id existed, and leaves the backend as
  the delete request left it; a failure of \<open>ensureCollection\<close> or of the delete request is
  thrown to the caller as it is, with the state the failing call found.
\<close>

theorem delete_result:
  "(useMemoryFallback (db st) \<longrightarrow>
      (fst (delete c st i now) = Inr True \<or> fst (delete c st i now) = Inr False)
    \<and> (fst (delete c st i now) = Inr True) = (\<exists>r\<in>set (memoryStore (db st)). id_field r = i)
    \<and> ((\<forall>r\<in>set (memoryStore (db st)). id_field r \<noteq> i) \<longrightarrow> snd (delete c st i now) = st)
    \<and> ((\<exists>r\<in>set (memoryStore (db st)). id_field r = i) \<longrightarrow>
         (\<exists>k<length (memoryStore (db st)).
            id_field (memoryStore (db st) ! k) = i
          \<and> (\<forall>j<k. id_field (memoryStore (db st) ! j) \<noteq> i)
          \<and> memoryStore (db (snd (delete c st i now)))
              = take k (memoryStore (db st)) @ drop (Suc k) (memoryStore (db st)))))
   \<and> (\<not> useMemoryFallback (db st) \<longrightarrow>
        fst (delete c st i now) \<noteq> Inr False
      \<and> (\<forall>st1 b. ensureCollection c st = (Inr (), st1)
             \<and> client_delete c (backend st1) (collectionName (db st1)) i = Inr b
           \<longrightarrow> fst (delete c st i now) = Inr True)
      \<and> (\<forall>st1 b. ensureCollection c st = (Inr (), st1)
             \<and> client_delete c (backend st1) (collectionName (db st1)) i = Inr b
           \<longrightarrow> delete c st i now = (Inr True, st1\<lparr>backend := b\<rparr>))
      \<and> (\<forall>err st1. ensureCollection c st = (Inl err, st1)
           \<longrightarrow> delete c st i now = (Inl err, st1))
      \<and> (\<forall>st1 err. ensureCollection c st = (Inr (), st1)
             \<and> client_delete c (backend st1) (collectionName (db st1)) i = Inl err
           \<longrightarrow> delete c st i now = (Inl err, st1)))"
proof (intro conjI impI)
  assume l: "useMemoryFallback (db st)"
  let ?ms = "memoryStore (db st)"
  let ?ix = "findIndex (\<lambda>r. id_field r = i) ?ms"
  show "fst (delete c st i now) = Inr True \<or> fst (delete c st i now) = Inr False"
    using l by (simp add: delete_def Let_def)
  show "(fst (delete c st i now) = Inr True) = (\<exists>r\<in>set ?ms. id_field r = i)"
    using l findIndex_none [of "\<lambda>r. id_field r = i" ?ms] by (auto simp: delete_def Let_def)
  show "snd (delete c st i now) = st" if "\<forall>r\<in>set ?ms. id_field r \<noteq> i"
    using l that findIndex_none [of "\<lambda>r. id_field r = i" ?ms] by (simp add: delete_def Let_def)
  show "\<exists>k<length ?ms. id_field (?ms ! k) = i \<and> (\<forall>j<k. id_field (?ms ! j) \<noteq> i)
          \<and> memoryStore (db (snd (delete c st i now))) = take k ?ms @ drop (Suc k) ?ms"
    if "\<exists>r\<in>set ?ms. id_field r = i"
  proof -
    have n: "?ix \<noteq> -1"
      using that findIndex_none [of "\<lambda>r. id_field r = i" ?ms] by auto
    have "memoryStore (db (snd (delete c st i now))) = take (nat ?ix) ?ms @ drop (Suc (nat ?ix)) ?ms"
      using l n by (simp add: delete_def Let_def splice1_def)
    then show ?thesis
      using findIndex_first [OF n] by blast
  qed
next
  assume r: "\<not> useMemoryFallback (db st)"
  show "fst (delete c st i now) \<noteq> Inr False"
    using remote_delete_returns_true [OF r] by blast
  show "\<forall>st1 b. ensureCollection c st = (Inr (), st1)
             \<and> client_delete c (backend st1) (collectionName (db st1)) i = Inr b
           \<longrightarrow> fst (delete c st i now) = Inr True"
    using r by (auto simp: delete_def)
  show "\<forall>st1 b. ensureCollection c st = (Inr (), st1)
             \<and> client_delete c (backend st1) (collectionName (db st1)) i = Inr b
           \<longrightarrow> delete c st i now = (Inr True, st1\<lparr>backend := b\<rparr>)"
    using r by (auto simp: delete_def)
  show "\<forall>err st1. ensureCollection c st = (Inl err, st1)
           \<longrightarrow> delete c st i now = (Inl err, st1)"
    using r by (auto simp: delete_def)
  show "\<forall>st1 err. ensureCollection c st = (Inr (), st1)
             \<and> client_delete c (backend st1) (collectionName (db st1)) i = Inl err
           \<longrightarrow> delete c st i now = (Inl err, st1)"
    using r by (auto simp: delete_def)
qed

lemma remote_store_simps:
  "\<not> useMemoryFallback (db remote_store)" "\<not> initialized (db remote_store)"
  "backend remote_store = []" "collectionName (db remote_store) = ''openclaw_memories''"
  by (simp_all add: remote_store_def constructor_def)

text \<open>The claim as stated fails on the Remote backend: the service holds no point and
  answers the request, and \<open>delete\<close> of an id that never existed returns true.\<close>

theorem remote_delete_counterexample:
  "\<not> useMemoryFallback (db remote_store) \<and> ''ghost'' \<notin> set (backend remote_store)
   \<and> fst (delete answering_service remote_store ''ghost'' 1) = Inr True"
  by (simp add: delete_def remote_store_simps ensureCollection_def answering_service_def)

text \<open>The theorem at a present id and at an absent id of a Local store, and on a Remote
  store whose service answers, cannot be reached, or fails the delete request.\<close>

theorem delete_result_witness:
  "useMemoryFallback (db scenario_A_full)
   \<and> (\<exists>r\<in>set (memoryStore (db scenario_A_full)). id_field r = ''id-A'')
   \<and> fst (delete answering_service scenario_A_full ''id-A'' 4) = Inr True
   \<and> ''id-Z'' \<notin> id_field ` set (memoryStore (db scenario_A_full))
   \<and> fst (delete answering_service scenario_A_full ''id-Z'' 4) = Inr False
   \<and> snd (delete answering_service scenario_A_full ''id-Z'' 4) = scenario_A_full
   \<and> \<not> useMemoryFallback (db remote_store)
   \<and> fst (delete answering_service remote_store ''id-A'' 4) \<noteq> Inr False
   \<and> ensureCollection answering_service remote_store
       = (Inr (), remote_store\<lparr>db := (db remote_store)\<lparr>initialized := True\<rparr>\<rparr>)
   \<and> delete answering_service remote_store ''id-A'' 4
       = (Inr True, remote_store\<lparr>db := (db remote_store)\<lparr>initialized := True\<rparr>, backend := []\<rparr>)
   \<and> ensureCollection unreachable_service remote_store
       = (Inl (JsError ''Error'' None ''fetch failed''), remote_store)
   \<and> delete unreachable_service remote_store ''id-A'' 4
       = (Inl (JsError ''Error'' None ''fetch failed''), remote_store)
   \<and> ensureCollection failing_delete_service remote_store
       = (Inr (), remote_store\<lparr>db := (db remote_store)\<lparr>initialized := True\<rparr>\<rparr>)
   \<and> delete failing_delete_service remote_store ''id-A'' 4
       = (Inl (JsError ''Error'' None ''timeout''),
          remote_store\<lparr>db := (db remote_store)\<lparr>initialized := True\<rparr>\<rparr>)"
proof -
  let ?ready = "remote_store\<lparr>db := (db remote_store)\<lparr>initialized := True\<rparr>\<rparr>"
  have l: "useMemoryFallback (db scenario_A_full)"
    by (simp add: scenario_A_full_simps)
  have a: "\<exists>r\<in>set (memoryStore (db scenario_A_full)). id_field r = ''id-A''"
    by (simp add: scenario_A_full_simps make_record_def)
  have z: "\<forall>r\<in>set (memoryStore (db scenario_A_full)). id_field r \<noteq> ''id-Z''"
    by (simp add: scenario_A_full_simps make_record_def)
  have r: "\<not> useMemoryFallback (db remote_store)"
    by (simp add: remote_store_simps)
  have 1: "fst (delete answering_service scenario_A_full ''id-A'' 4) = Inr True"
    using delete_result [of scenario_A_full answering_service "''id-A''" 4] l a by blast
  have 2: "fst (delete answering_service scenario_A_full ''id-Z'' 4) = Inr False
       \<and> snd (delete answering_service scenario_A_full ''id-Z'' 4) = scenario_A_full"
    using delete_result [of scenario_A_full answering_service "''id-Z''" 4] l z by blast
  have 3: "fst (delete answering_service remote_store ''id-A'' 4) \<noteq> Inr False"
    using delete_result [of remote_store answering_service "''id-A''" 4] r by blast
  have z': "''id-Z'' \<notin> id_field ` set (memoryStore (db scenario_A_full))"
    using z by auto
  have e1: "ensureCollection answering_service remote_store = (Inr (), ?ready)"
    by (simp add: ensureCollection_def remote_store_simps answering_service_def)
  have d1: "client_delete answering_service (backend ?ready) (collectionName (db ?ready)) ''id-A''
      = Inr []"
    by (simp add: answering_service_def remote_store_simps)
  have 4: "delete answering_service remote_store ''id-A'' 4 = (Inr True, ?ready\<lparr>backend := []\<rparr>)"
    using delete_result [of remote_store answering_service "''id-A''" 4] r e1 d1 by blast
  have e2: "ensureCollection unreachable_service remote_store
      = (Inl (JsError ''Error'' None ''fetch failed''), remote_store)"
    by (simp add: ensureCollection_def remote_store_simps unreachable_service_def
        str_includes_def)
  have 5: "delete unreachable_service remote_store ''id-A'' 4
      = (Inl (JsError ''Error'' None ''fetch failed''), remote_store)"
    using delete_result [of remote_store unreachable_service "''id-A''" 4] r e2 by blast
  have e3: "ensureCollection failing_delete_service remote_store = (Inr (), ?ready)"
    by (simp add: ensureCollection_def remote_store_simps failing_delete_service_def
        answering_service_def)
  have d3: "client_delete failing_delete_service (backend ?ready) (collectionName (db ?ready))
      ''id-A'' = Inl (JsError ''Error'' None ''timeout'')"
    by (simp add: failing_delete_service_def answering_service_def)
  have 6: "delete failing_delete_service remote_store ''id-A'' 4
      = (Inl (JsError ''Error'' None ''timeout''), ?ready)"
    using delete_result [of remote_store failing_delete_service "''id-A''" 4] r e3 d3 by blast
  show ?thesis
    using l a z' r 1 conjunct1 [OF 2] conjunct2 [OF 2] 3 e1 4 e2 5 e3 6 by (intro conjI)
qed

subsection \<open>The snapshot\<close>

text \<open>
  C6. For every store with a persistence path on which the directory is there or can be
  made and the file can be written and read, \<open>_saveToDisk\<close> followed by the constructor
  of a fresh Local store on the same path gives back the list of records as it was saved:
  the same records, each with its id, text, category, importance, vector and createdAt,
  in the same order.
\<close>

theorem snapshot_round_trip:
  assumes "persistPath this = Some p" and "p \<noteq> []"
    and "existsSync fs (substring0 p (lastIndexOf p CHR ''/''))
         \<or> \<not> mkdir_fails fs (substring0 p (lastIndexOf p CHR ''/''))"
    and "\<not> write_fails fs p" and "\<not> read_fails fs p"
  shows "memoryStore (constructor None cn max_size (Some p) (saveToDisk this saved fs))
         = memoryStore this"
  using assms
  by (auto simp: constructor_def saveToDisk_def loadFromDisk_def Let_def mkdirSync_def
      writeFileSync_def readFileSync_def existsSync_def JSON_stringify_def)

lemma unordered_store_path:
  "persistPath (db unordered_store) = Some snapshot_path" "snapshot_path \<noteq> []"
  by (simp_all add: unordered_store_def constructor_def loadFromDisk_def existsSync_def
      readFileSync_def empty_disk_def snapshot_path_def unordered_snapshot_def Let_def)

text \<open>The theorem at the store of the unordered snapshot, saved to an empty disk.\<close>

theorem snapshot_round_trip_witness:
  "persistPath (db unordered_store) = Some snapshot_path \<and> snapshot_path \<noteq> []
   \<and> (existsSync empty_disk (substring0 snapshot_path (lastIndexOf snapshot_path CHR ''/''))
       \<or> \<not> mkdir_fails empty_disk (substring0 snapshot_path (lastIndexOf snapshot_path CHR ''/'')))
   \<and> \<not> write_fails empty_disk snapshot_path \<and> \<not> read_fails empty_disk snapshot_path
   \<and> memoryStore (constructor None ''openclaw_memories'' 3 (Some snapshot_path)
         (saveToDisk (db unordered_store) 10 empty_disk))
       = memoryStore (db unordered_store)"
proof -
  have h: "persistPath (db unordered_store) = Some snapshot_path" "snapshot_path \<noteq> []"
    "existsSync empty_disk (substring0 snapshot_path (lastIndexOf snapshot_path CHR ''/''))
       \<or> \<not> mkdir_fails empty_disk (substring0 snapshot_path (lastIndexOf snapshot_path CHR ''/''))"
    "\<not> write_fails empty_disk snapshot_path" "\<not> read_fails empty_disk snapshot_path"
    by (simp_all add: unordered_store_path empty_disk_def)
  show ?thesis
    using h snapshot_round_trip [OF h, of "''openclaw_memories''" 3 10] by simp
qed


subsection \<open>The health check\<close>

text \<open>
  C8 (as amended). \<open>healthCheck\<close> never throws, leaves the state as it is and always
  returns a classification: \<open>{healthy: true, mode: 'memory'}\<close> for the Local backend; for
  the Remote backend the mode \<open>'qdrant'\<close>, with \<open>healthy\<close> true and the url of the client
  when \<open>getCollections\<close> succeeds, with \<open>healthy\<close> false and the message of the error when
  it fails.
\<close>

theorem healthCheck_classifies:
  "\<exists>h. fst (healthCheck c st) = Inr h \<and> snd (healthCheck c st) = st
     \<and> (useMemoryFallback (db st) \<longrightarrow>
          h = \<lparr>healthy = True, mode = ''memory'', health_url = None, error = None\<rparr>)
     \<and> (\<not> useMemoryFallback (db st) \<longrightarrow>
          mode h = ''qdrant''
        \<and> (\<forall>u. getCollections c (backend st) = Inr u \<longrightarrow>
              healthy h \<and> health_url h = client_url c \<and> error h = None)
        \<and> (\<forall>err. getCollections c (backend st) = Inl err \<longrightarrow>
              \<not> healthy h \<and> error h = Some (message err)))"
  by (cases "getCollections c (backend st)") (simp_all add: healthCheck_def)

text \<open>The theorem on a Local store, on a Remote store whose service cannot be reached,
  and on a Remote store whose service answers.\<close>

theorem healthCheck_classifies_witness:
  "useMemoryFallback (db (local_store 2))
   \<and> fst (healthCheck unreachable_service (local_store 2))
       = Inr \<lparr>healthy = True, mode = ''memory'', health_url = None, error = None\<rparr>
   \<and> \<not> useMemoryFallback (db remote_store)
   \<and> getCollections unreachable_service (backend remote_store)
       = Inl (JsError ''Error'' None ''fetch failed'')
   \<and> (\<exists>h. fst (healthCheck unreachable_service remote_store) = Inr h
         \<and> mode h = ''qdrant'' \<and> \<not> healthy h \<and> error h = Some ''fetch failed'')
   \<and> getCollections answering_service (backend remote_store) = Inr ()
   \<and> (\<exists>h. fst (healthCheck answering_service remote_store) = Inr h
         \<and> mode h = ''qdrant'' \<and> healthy h)"
proof -
  have l: "useMemoryFallback (db (local_store 2))"
    by (simp add: local_store_simps)
  have r: "\<not> useMemoryFallback (db remote_store)"
    by (simp add: remote_store_simps)
  have f: "getCollections unreachable_service (backend remote_store)
       = Inl (JsError ''Error'' None ''fetch failed'')"
    by (simp add: unreachable_service_def)
  have g: "getCollections answering_service (backend remote_store) = Inr ()"
    by (simp add: answering_service_def)
  have 1: "fst (healthCheck unreachable_service (local_store 2))
       = Inr \<lparr>healthy = True, mode = ''memory'', health_url = None, error = None\<rparr>"
    using healthCheck_classifies [of unreachable_service "local_store 2"] l by auto
  have 2: "\<exists>h. fst (healthCheck unreachable_service remote_store) = Inr h
         \<and> mode h = ''qdrant'' \<and> \<not> healthy h \<and> error h = Some ''fetch failed''"
    using healthCheck_classifies [of unreachable_service remote_store] r f by auto
  have 3: "\<exists>h. fst (healthCheck answering_service remote_store) = Inr h
         \<and> mode h = ''qdrant'' \<and> healthy h"
    using healthCheck_classifies [of answering_service remote_store] r g by auto
  show ?thesis using l r f g 1 2 3 by blast
qed

text \<open>The claim as stated names the modes \<open>local\<close> and \<open>remote\<close>; the code returns
  \<open>memory\<close> and \<open>qdrant\<close>.\<close>

theorem healthCheck_mode_counterexample:
  "fst (healthCheck answering_service (local_store 2))
     = Inr \<lparr>healthy = True, mode = ''memory'', health_url = None, error = None\<rparr>
   \<and> fst (healthCheck answering_service (local_store 2))
     \<noteq> Inr \<lparr>healthy = True, mode = ''local'', health_url = None, error = None\<rparr>
   \<and> fst (healthCheck answering_service remote_store)
     = Inr \<lparr>healthy = True, mode = ''qdrant'', health_url = Some ''http://localhost:6333'',
            error = None\<rparr>
   \<and> fst (healthCheck unreachable_service remote_store)
     = Inr \<lparr>healthy = False, mode = ''qdrant'', health_url = None,
            error = Some ''fetch failed''\<rparr>"
  by (simp add: healthCheck_def local_store_simps remote_store_simps answering_service_def
      unreachable_service_def)

subsection \<open>Failures of a Remote search\<close>

text \<open>
  C4. The claim: a backend failure during a Remote \<open>search\<close> is caught and an empty
  list is returned. The code at a failing search request: the handler evaluates
  \<open>api.logger.error\<close> where no \<open>api\<close> is bound, and the search rejects with a
  ReferenceError; it would return the empty list were \<open>api\<close> bound. A failure of
  \<open>ensureCollection\<close>, which runs before the \<open>try\<close>, is thrown as it is.
\<close>

theorem search_remote_failure_throws:
  "fst (search failing_search_service None remote_store [1, 0] 5 0.3)
     = Inl (JsError ''ReferenceError'' None ''api is not defined'')
   \<and> fst (search failing_search_service (Some Logger) remote_store [1, 0] 5 0.3) = Inr []
   \<and> fst (search unreachable_service (Some Logger) remote_store [1, 0] 5 0.3)
     = Inl (JsError ''Error'' None ''fetch failed'')"
  by (simp add: search_def remote_store_simps ensureCollection_def failing_search_service_def
      answering_service_def unreachable_service_def str_includes_def)

end
